theory Spec2Isabelle
  imports Main "HOL-Library.Code_Target_Numeral"
begin

section \<open>JavaScript values\<close>

text \<open>
  The values a signal holds. \<open>Num n\<close> is the Number nearest to the integer \<open>n\<close> (an
  integer below \<open>2\<^sup>5\<^sup>3\<close> in absolute value is a Number itself); \<open>Symbol\<close> is a symbol;
  \<open>Obj r c\<close> is the object with reference \<open>r\<close>, \<open>c\<close> being what its conversion to a
  string gives: a string (\<^verbatim>\<open>[object Object]\<close> for a plain object), or the
  exception it raises (\<open>TypeError\<close> for an object without prototype, whatever a
  \<^verbatim>\<open>toString\<close> of its own throws otherwise). Fractions, infinities and BigInts, and
  conversions that have effects, are left out.

  An \<open>error\<close> is what a \<^verbatim>\<open>throw\<close> carries: a value thrown by the caller's code,
  the \<open>TypeError\<close> of a failed conversion, or the \<open>SyntaxError\<close> of a selector that
  does not parse.

  \<open>truthy v\<close> is \<^verbatim>\<open>!!value\<close>: \<^verbatim>\<open>undefined\<close>, \<^verbatim>\<open>null\<close>, \<^verbatim>\<open>false\<close>, \<open>0\<close>,
  \<open>NaN\<close> and the empty string are falsy, everything else is truthy.
\<close>

datatype jsval = Undefined | Null | Bool bool | Num int | NaN | Str string | Symbol nat
  | Obj nat "error + string"
and error = Thrown jsval | TypeError | SyntaxError

fun truthy :: "jsval \<Rightarrow> bool" where
  "truthy Undefined = False"
| "truthy Null = False"
| "truthy (Bool b) = b"
| "truthy (Num n) = (n \<noteq> 0)"
| "truthy NaN = False"
| "truthy (Str s) = (s \<noteq> [])"
| "truthy (Symbol y) = True"
| "truthy (Obj r c) = True"

text \<open>
  The string of a Number, as \<^verbatim>\<open>Number::toString\<close> specifies it for radix 10 (with
  the digits that the engines print: the shortest that read back as the same Number,
  the closest to it among those). \<open>nearest_double m\<close> rounds
  a natural number to 53 significant bits, ties to even. \<open>candidates x k\<close> are the pairs
  \<open>(s, n)\<close> with \<open>k\<close> digits \<open>s\<close> such that \<open>s \<times> 10\<^bsup>n - k\<^esup>\<close> rounds to \<open>x\<close>;
  \<open>shortest x k\<close> takes the least \<open>k\<close> that has one, and the candidate closest to \<open>x\<close> (the
  even one of two equally close). Up to 21 digits the Number prints in full, beyond in
  exponent form; from \<open>2\<^bsup>1024\<^esup>\<close> it is \<^verbatim>\<open>Infinity\<close>.
\<close>

definition digit_char :: "nat \<Rightarrow> char" where
  "digit_char d = ''0123456789'' ! d"

function decimal :: "nat \<Rightarrow> string" where
  "decimal n = (if n < 10 then [digit_char n] else decimal (n div 10) @ [digit_char (n mod 10)])"
  by pat_completeness auto
termination
  by (relation "measure (\<lambda>n. n)") auto

declare decimal.simps [simp del]

function bit_length :: "nat \<Rightarrow> nat" where
  "bit_length m = (if m = 0 then 0 else Suc (bit_length (m div 2)))"
  by pat_completeness auto
termination
  by (relation "measure (\<lambda>m. m)") auto

declare bit_length.simps [simp del]

definition nearest_double :: "nat \<Rightarrow> nat" where
  "nearest_double m =
     (if m < 2 ^ 53 then m
      else (let e = bit_length m - 53; q = m div 2 ^ e; r = m mod 2 ^ e
            in if 2 * r < 2 ^ e \<or> (2 * r = 2 ^ e \<and> even q) then q * 2 ^ e else (q + 1) * 2 ^ e))"

definition candidates :: "nat \<Rightarrow> nat \<Rightarrow> (nat \<times> nat) list" where
  "candidates x k =
     (let d = length (decimal x); lo = x div 10 ^ (d - k)
      in filter (\<lambda>(s, n). 10 ^ (k - 1) \<le> s \<and> s < 10 ^ k \<and> nearest_double (s * 10 ^ (n - k)) = x)
           [(lo, d), (lo + 1, d), (10 ^ (k - 1), d + 1)])"

definition distance :: "nat \<Rightarrow> nat \<Rightarrow> nat \<times> nat \<Rightarrow> nat" where
  "distance x k c = nat \<bar>int (fst c * 10 ^ (snd c - k)) - int x\<bar>"

definition closer :: "nat \<Rightarrow> nat \<Rightarrow> nat \<times> nat \<Rightarrow> nat \<times> nat \<Rightarrow> nat \<times> nat" where
  "closer x k a b =
     (if distance x k a < distance x k b \<or> (distance x k a = distance x k b \<and> even (fst a))
      then a else b)"

function shortest :: "nat \<Rightarrow> nat \<Rightarrow> nat \<times> nat \<times> nat" where
  "shortest x k =
     (case candidates x k of
        [] \<Rightarrow> (if k < length (decimal x) then shortest x (Suc k)
               else (x, length (decimal x), length (decimal x)))
      | c # cs \<Rightarrow> (let b = foldl (closer x k) c cs in (fst b, snd b, k)))"
  by pat_completeness auto
termination
  by (relation "measure (\<lambda>(x, k). length (decimal x) - k)") auto

declare shortest.simps [simp del]

definition number_digits :: "nat \<Rightarrow> string" where
  "number_digits x =
     (case shortest x 1 of (s, n, k) \<Rightarrow>
        if n \<le> 21 then decimal s @ replicate (n - k) (CHR ''0'')
        else (if k = 1 then decimal s else hd (decimal s) # CHR ''.'' # tl (decimal s))
             @ ''e+'' @ decimal (n - 1))"

definition number_to_string :: "int \<Rightarrow> string" where
  "number_to_string i =
     (if \<bar>i\<bar> < 2 ^ 53 then (if i < 0 then CHR ''-'' # decimal (nat (- i)) else decimal (nat i))
      else (let x = nearest_double (nat \<bar>i\<bar>);
                body = (if 2 ^ 1024 \<le> x then ''Infinity'' else number_digits x)
            in if i < 0 then CHR ''-'' # body else body))"

text \<open>
  \<open>to_string v\<close> is the template literal \<^verbatim>\<open>`${value}`\<close>: the string of the value,
  or the exception that the conversion raises.
\<close>

fun to_string :: "jsval \<Rightarrow> error + string" where
  "to_string Undefined = Inr ''undefined''"
| "to_string Null = Inr ''null''"
| "to_string (Bool b) = Inr (if b then ''true'' else ''false'')"
| "to_string (Num n) = Inr (number_to_string n)"
| "to_string NaN = Inr ''NaN''"
| "to_string (Str s) = Inr s"
| "to_string (Symbol y) = Inl TypeError"
| "to_string (Obj r c) = c"

section \<open>The host environment: Set, classList, the document\<close>

text \<open>
  \<^verbatim>\<open>new Set()\<close> as ECMAScript specifies it: the entries are kept in insertion order,
  \<^verbatim>\<open>add\<close> appends a value that is not yet present, \<^verbatim>\<open>delete\<close> replaces the
  entry by an empty slot (\<open>None\<close>), and \<^verbatim>\<open>forEach\<close> walks the entries by index,
  skipping the empty slots and re-reading the number of entries after every call.
\<close>

definition Set_add :: "'a \<Rightarrow> 'a option list \<Rightarrow> 'a option list" where
  "Set_add x es = (if Some x \<in> set es then es else es @ [Some x])"

fun Set_delete :: "'a \<Rightarrow> 'a option list \<Rightarrow> 'a option list" where
  "Set_delete x [] = []"
| "Set_delete x (e # es) = (if e = Some x then None # es else e # Set_delete x es)"

text \<open>
  \<^verbatim>\<open>classList\<close> as the DOM standard specifies a token list: an ordered set of tokens.
\<close>

definition classList_add :: "string \<Rightarrow> string list \<Rightarrow> string list" where
  "classList_add tok l = (if tok \<in> set l then l else l @ [tok])"

definition classList_remove :: "string \<Rightarrow> string list \<Rightarrow> string list" where
  "classList_remove tok l = removeAll tok l"

definition classList_toggle :: "string \<Rightarrow> bool \<Rightarrow> string list \<Rightarrow> string list" where
  "classList_toggle tok force l =
     (if tok \<in> set l then (if force then l else removeAll tok l)
      else (if force then l @ [tok] else l))"

type_synonym sid = nat
type_synonym fid = nat
type_synonym elem = nat

record element =
  data_signal_read :: "string option"
  data_signal_checker :: "string option"
  innerText :: string
  classList :: "string list"

text \<open>
  \<^verbatim>\<open>document.querySelectorAll\<close> is called with the selector text that the template
  literal builds from the name, \<open>attribute_selector\<close>. For a name without a double quote,
  a backslash, a line break or a null character (\<open>css_plain\<close>) the text is an attribute
  selector with the name as its quoted string, and the result is the list of the elements
  of the document, in document order, whose attribute equals the name. For any other
  name the text is whatever the name makes of it; the answer of the host to such a text
  (a list of elements, or a \<open>SyntaxError\<close>) is the field \<open>querySelectorAll_other\<close> of the
  world.
\<close>

definition css_plain :: "string \<Rightarrow> bool" where
  "css_plain name =
     list_all (\<lambda>c. c \<notin> set [CHR 0x22, CHR 0x5C, CHR 0x0A, CHR 0x0C, CHR 0x0D, CHR 0x00]) name"

definition attribute_selector :: "string \<Rightarrow> string \<Rightarrow> string" where
  "attribute_selector attr name = ''['' @ attr @ ''='' @ [CHR 0x22] @ name @ [CHR 0x22] @ '']''"

section \<open>Signals, callbacks and the world\<close>

text \<open>
  A function passed to \<^verbatim>\<open>update\<close> is a pure function of the old value that may
  throw; a compute function reads the signals through their \<^verbatim>\<open>get\<close> (the view
  \<open>sid \<Rightarrow> jsval\<close>) and may throw.

  The members of \<^verbatim>\<open>subscribers\<close> are function objects, compared by identity:
  \<open>Fn f\<close> is the caller's function \<open>f\<close>, whose body \<open>funs w f\<close> is, for each argument, a
  sequence of operations on signals (\<open>Unsubscribe s f\<close> is a call of the handle that
  \<^verbatim>\<open>s.subscribe(f)\<close> returned); \<open>Recompute c k\<close> is the closure
  \<^verbatim>\<open>() => signal.set(computeFn())\<close> that \<^verbatim>\<open>createComputed\<close> makes for its
  \<open>k\<close>-th dependency, \<open>c\<close> being the internal signal it captured. The caller's
  functions cannot name these closures: \<^verbatim>\<open>createComputed\<close> drops their handles.

  A signal object is its closure variables: \<^verbatim>\<open>value\<close> (here \<open>sig_value\<close>),
  \<^verbatim>\<open>subscribers\<close>, \<^verbatim>\<open>readers\<close> and \<^verbatim>\<open>checkers\<close>. The world holds the signals
  by reference, the next fresh reference, the compute function each recomputing closure
  captured, the bodies of the caller's functions, the document and its elements, the
  host's answers to other selectors, and \<open>calls\<close>, the record of what has been invoked:
  \<open>Call fn v\<close> when a subscriber is invoked with \<open>v\<close>, \<open>Compute c\<close> when the compute
  function of the computed signal \<open>c\<close> is evaluated. The record is an observation; no
  step reads it.
\<close>

datatype callback = Fn fid | Recompute sid nat

datatype action =
    SetSig sid jsval
  | UpdateSig sid "jsval \<Rightarrow> error + jsval"
  | Subscribe sid fid
  | Unsubscribe sid fid
  | Throw jsval

datatype event = Call callback jsval | Compute sid

record signal =
  sig_value :: jsval
  subscribers :: "callback option list"
  readers :: "elem list"
  checkers :: "elem list"

record world =
  signals :: "sid \<Rightarrow> signal"
  next_signal :: sid
  computeFns :: "sid \<Rightarrow> (sid \<Rightarrow> jsval) \<Rightarrow> error + jsval"
  funs :: "fid \<Rightarrow> jsval \<Rightarrow> action list"
  document :: "elem list"
  elements :: "elem \<Rightarrow> element"
  querySelectorAll_other :: "string \<Rightarrow> error + elem list"
  calls :: "event list"

datatype outcome = Done world | Threw error world | OutOfFuel

definition get :: "sid \<Rightarrow> world \<Rightarrow> jsval" where
  "get s w = sig_value (signals w s)"

definition assign :: "sid \<Rightarrow> jsval \<Rightarrow> world \<Rightarrow> world" where
  "assign s v w = w\<lparr>signals := (signals w)(s := (signals w s)\<lparr>sig_value := v\<rparr>)\<rparr>"

definition subscribe :: "sid \<Rightarrow> callback \<Rightarrow> world \<Rightarrow> world" where
  "subscribe s fn w =
     w\<lparr>signals := (signals w)(s := (signals w s)\<lparr>subscribers := Set_add fn (subscribers (signals w s))\<rparr>)\<rparr>"

definition unsubscribe :: "sid \<Rightarrow> callback \<Rightarrow> world \<Rightarrow> world" where
  "unsubscribe s fn w =
     w\<lparr>signals := (signals w)(s := (signals w s)\<lparr>subscribers := Set_delete fn (subscribers (signals w s))\<rparr>)\<rparr>"

definition record_event :: "event \<Rightarrow> world \<Rightarrow> world" where
  "record_event ev w = w\<lparr>calls := calls w @ [ev]\<rparr>"

text \<open>
  The two loops over the bound elements. \<open>write_reader\<close> is
  \<^verbatim>\<open>reader.innerText = `${value}`\<close>: the conversion of the value is evaluated for
  each display target and may raise; then the loop stops (\<open>forEach_elem\<close>) and nothing
  after it runs. \<open>write_checker\<close> is the visibility step. \<open>write_targets\<close> is the two
  loops, one after the other.
\<close>

definition write_reader :: "sid \<Rightarrow> world \<Rightarrow> elem \<Rightarrow> error + world" where
  "write_reader s w reader =
     (case to_string (get s w) of
        Inl e \<Rightarrow> Inl e
      | Inr text \<Rightarrow>
          Inr (w\<lparr>elements := (elements w)(reader := (elements w reader)\<lparr>innerText := text\<rparr>)\<rparr>))"

fun forEach_elem :: "(world \<Rightarrow> elem \<Rightarrow> error + world) \<Rightarrow> world \<Rightarrow> elem list \<Rightarrow> error + world" where
  "forEach_elem step w [] = Inr w"
| "forEach_elem step w (x # xs) =
     (case step w x of Inl e \<Rightarrow> Inl e | Inr w' \<Rightarrow> forEach_elem step w' xs)"

definition write_checker :: "sid \<Rightarrow> world \<Rightarrow> elem \<Rightarrow> world" where
  "write_checker s w checker =
     w\<lparr>elements := (elements w)(checker := (elements w checker)
        \<lparr>classList := classList_toggle ''visible'' (truthy (get s w)) (classList (elements w checker))\<rparr>)\<rparr>"

definition write_targets :: "sid \<Rightarrow> world \<Rightarrow> error + world" where
  "write_targets s w =
     (case forEach_elem (write_reader s) w (readers (signals w s)) of
        Inl e \<Rightarrow> Inl e
      | Inr w1 \<Rightarrow> Inr (foldl (write_checker s) w1 (checkers (signals w1 s))))"

text \<open>
  The operations of a signal: \<^verbatim>\<open>get\<close>; \<^verbatim>\<open>set\<close> (\<open>set_sig\<close>), \<^verbatim>\<open>update\<close> and
  \<^verbatim>\<open>notify\<close>; \<^verbatim>\<open>subscribe\<close>, and \<open>unsubscribe\<close> for the handle it returns.
  Callbacks run inside \<^verbatim>\<open>notify\<close> and may call the operations again, so the
  functions are mutually recursive. The fuel \<open>n\<close> bounds the iterations of
  \<^verbatim>\<open>subscribers.forEach\<close> along every path of nested calls; a run that needs more
  does not return (\<open>OutOfFuel\<close>). An exception leaves the world as it was when it was
  raised (\<open>Threw e w\<close>); nothing catches it.
\<close>

function forEach_subs :: "nat \<Rightarrow> sid \<Rightarrow> nat \<Rightarrow> world \<Rightarrow> outcome"
  and notify :: "nat \<Rightarrow> sid \<Rightarrow> world \<Rightarrow> outcome"
  and set_sig :: "nat \<Rightarrow> sid \<Rightarrow> jsval \<Rightarrow> world \<Rightarrow> outcome"
  and update :: "nat \<Rightarrow> sid \<Rightarrow> (jsval \<Rightarrow> error + jsval) \<Rightarrow> world \<Rightarrow> outcome"
  and call_fn :: "nat \<Rightarrow> callback \<Rightarrow> jsval \<Rightarrow> world \<Rightarrow> outcome"
  and run_action :: "nat \<Rightarrow> action \<Rightarrow> world \<Rightarrow> outcome"
  and run_body :: "nat \<Rightarrow> action list \<Rightarrow> world \<Rightarrow> outcome"
where
  "forEach_subs 0 s i w =
     (if i < length (subscribers (signals w s)) then OutOfFuel else Done w)"
| "forEach_subs (Suc n) s i w =
     (if i < length (subscribers (signals w s)) then
        (case subscribers (signals w s) ! i of
           None \<Rightarrow> forEach_subs n s (Suc i) w
         | Some fn \<Rightarrow>
             (case call_fn n fn (get s w) w of
                Done w' \<Rightarrow> forEach_subs n s (Suc i) w'
              | Threw e w' \<Rightarrow> Threw e w'
              | OutOfFuel \<Rightarrow> OutOfFuel))
      else Done w)"
| "notify n s w =
     (case forEach_subs n s 0 w of
        Done w' \<Rightarrow>
          (case write_targets s w' of
             Inl e \<Rightarrow> Threw e w'
           | Inr w'' \<Rightarrow> Done w'')
      | Threw e w' \<Rightarrow> Threw e w'
      | OutOfFuel \<Rightarrow> OutOfFuel)"
| "set_sig n s newValue w = notify n s (assign s newValue w)"
| "update n s f w =
     (case f (get s w) of
        Inl e \<Rightarrow> Threw e w
      | Inr newValue \<Rightarrow> notify n s (assign s newValue w))"
| "call_fn n (Fn f) v w = run_body n (funs w f v) (record_event (Call (Fn f) v) w)"
| "call_fn n (Recompute c k) v w =
     (case computeFns w c (\<lambda>s. get s w) of
        Inl e \<Rightarrow> Threw e (record_event (Compute c) (record_event (Call (Recompute c k) v) w))
      | Inr x \<Rightarrow> set_sig n c x (record_event (Compute c) (record_event (Call (Recompute c k) v) w)))"
| "run_action n (SetSig s v) w = set_sig n s v w"
| "run_action n (UpdateSig s f) w = update n s f w"
| "run_action n (Subscribe s f) w = Done (subscribe s (Fn f) w)"
| "run_action n (Unsubscribe s f) w = Done (unsubscribe s (Fn f) w)"
| "run_action n (Throw x) w = Threw (Thrown x) w"
| "run_body n [] w = Done w"
| "run_body n (a # as) w =
     (case run_action n a w of
        Done w' \<Rightarrow> run_body n as w'
      | Threw e w' \<Rightarrow> Threw e w'
      | OutOfFuel \<Rightarrow> OutOfFuel)"
  by pat_completeness auto
termination
  by (relation "measures
        [\<lambda>x. case x of
            Inl (Inl (n, s, i, w)) \<Rightarrow> n
          | Inl (Inr (Inl (n, s, w))) \<Rightarrow> n
          | Inl (Inr (Inr (n, s, v, w))) \<Rightarrow> n
          | Inr (Inl (Inl (n, s, f, w))) \<Rightarrow> n
          | Inr (Inl (Inr (n, fn, v, w))) \<Rightarrow> n
          | Inr (Inr (Inl (n, a, w))) \<Rightarrow> n
          | Inr (Inr (Inr (n, as, w))) \<Rightarrow> n,
         \<lambda>x. case x of
            Inl (Inl (n, s, i, w)) \<Rightarrow> 0
          | Inl (Inr (Inl (n, s, w))) \<Rightarrow> 1
          | Inl (Inr (Inr (n, s, v, w))) \<Rightarrow> 2
          | Inr (Inl (Inl (n, s, f, w))) \<Rightarrow> 2
          | Inr (Inl (Inr (n, fn, v, w))) \<Rightarrow> 5
          | Inr (Inr (Inl (n, a, w))) \<Rightarrow> 3
          | Inr (Inr (Inr (n, as, w))) \<Rightarrow> 4,
         \<lambda>x. case x of
            Inr (Inr (Inr (n, as, w))) \<Rightarrow> length as
          | _ \<Rightarrow> 0]") auto


section \<open>Construction\<close>

text \<open>
  The two queries of \<^verbatim>\<open>createSignal\<close>, as described above; the result is a static
  list, captured once. \<^verbatim>\<open>createSignal\<close> runs the queries (either may raise, and
  then no signal is made), makes the signal and returns its reference with the outcome
  of the first \<^verbatim>\<open>notify\<close>; \<^verbatim>\<open>createComputed\<close> evaluates the compute function,
  creates the internal signal and subscribes one fresh closure to each dependency.
\<close>

definition querySelectorAll_read :: "string \<Rightarrow> world \<Rightarrow> error + elem list" where
  "querySelectorAll_read name w =
     (if css_plain name
      then Inr (filter (\<lambda>e. data_signal_read (elements w e) = Some name) (document w))
      else querySelectorAll_other w (attribute_selector ''data-signal-read'' name))"

definition querySelectorAll_checker :: "string \<Rightarrow> world \<Rightarrow> error + elem list" where
  "querySelectorAll_checker name w =
     (if css_plain name
      then Inr (filter (\<lambda>e. data_signal_checker (elements w e) = Some name) (document w))
      else querySelectorAll_other w (attribute_selector ''data-signal-checker'' name))"

definition new_signal :: "elem list \<Rightarrow> elem list \<Rightarrow> jsval \<Rightarrow> world \<Rightarrow> world" where
  "new_signal rs cs initialValue w =
     w\<lparr>signals := (signals w)(next_signal w :=
          \<lparr>sig_value = initialValue, subscribers = [], readers = rs, checkers = cs\<rparr>),
       next_signal := Suc (next_signal w)\<rparr>"

definition createSignal :: "nat \<Rightarrow> string \<Rightarrow> jsval \<Rightarrow> world \<Rightarrow> sid \<times> outcome" where
  "createSignal n name initialValue w =
     (case querySelectorAll_read name w of
        Inl e \<Rightarrow> (next_signal w, Threw e w)
      | Inr rs \<Rightarrow>
          (case querySelectorAll_checker name w of
             Inl e \<Rightarrow> (next_signal w, Threw e w)
           | Inr cs \<Rightarrow> (next_signal w, notify n (next_signal w) (new_signal rs cs initialValue w))))"

fun subscribe_deps :: "sid \<Rightarrow> nat \<Rightarrow> sid list \<Rightarrow> world \<Rightarrow> world" where
  "subscribe_deps c k [] w = w"
| "subscribe_deps c k (dep # deps) w =
     subscribe_deps c (Suc k) deps (subscribe dep (Recompute c k) w)"


section \<open>The second implementation (src/unnamed/part_000)\<close>

text \<open>
  The second \<^verbatim>\<open>createSignal\<close> differs in the visibility step only: it calls
  \<^verbatim>\<open>classList.add\<close> or \<^verbatim>\<open>classList.remove\<close> where the first calls
  \<^verbatim>\<open>classList.toggle\<close> with the force argument. Its functions carry a prime.
\<close>

definition write_checker' :: "sid \<Rightarrow> world \<Rightarrow> elem \<Rightarrow> world" where
  "write_checker' s w checker =
     w\<lparr>elements := (elements w)(checker := (elements w checker)
        \<lparr>classList := (if truthy (get s w) then classList_add ''visible'' (classList (elements w checker))
                       else classList_remove ''visible'' (classList (elements w checker)))\<rparr>)\<rparr>"

definition write_targets' :: "sid \<Rightarrow> world \<Rightarrow> error + world" where
  "write_targets' s w =
     (case forEach_elem (write_reader s) w (readers (signals w s)) of
        Inl e \<Rightarrow> Inl e
      | Inr w1 \<Rightarrow> Inr (foldl (write_checker' s) w1 (checkers (signals w1 s))))"

function forEach_subs' :: "nat \<Rightarrow> sid \<Rightarrow> nat \<Rightarrow> world \<Rightarrow> outcome"
  and notify' :: "nat \<Rightarrow> sid \<Rightarrow> world \<Rightarrow> outcome"
  and set_sig' :: "nat \<Rightarrow> sid \<Rightarrow> jsval \<Rightarrow> world \<Rightarrow> outcome"
  and update' :: "nat \<Rightarrow> sid \<Rightarrow> (jsval \<Rightarrow> error + jsval) \<Rightarrow> world \<Rightarrow> outcome"
  and call_fn' :: "nat \<Rightarrow> callback \<Rightarrow> jsval \<Rightarrow> world \<Rightarrow> outcome"
  and run_action' :: "nat \<Rightarrow> action \<Rightarrow> world \<Rightarrow> outcome"
  and run_body' :: "nat \<Rightarrow> action list \<Rightarrow> world \<Rightarrow> outcome"
where
  "forEach_subs' 0 s i w =
     (if i < length (subscribers (signals w s)) then OutOfFuel else Done w)"
| "forEach_subs' (Suc n) s i w =
     (if i < length (subscribers (signals w s)) then
        (case subscribers (signals w s) ! i of
           None \<Rightarrow> forEach_subs' n s (Suc i) w
         | Some fn \<Rightarrow>
             (case call_fn' n fn (get s w) w of
                Done w' \<Rightarrow> forEach_subs' n s (Suc i) w'
              | Threw e w' \<Rightarrow> Threw e w'
              | OutOfFuel \<Rightarrow> OutOfFuel))
      else Done w)"
| "notify' n s w =
     (case forEach_subs' n s 0 w of
        Done w' \<Rightarrow>
          (case write_targets' s w' of
             Inl e \<Rightarrow> Threw e w'
           | Inr w'' \<Rightarrow> Done w'')
      | Threw e w' \<Rightarrow> Threw e w'
      | OutOfFuel \<Rightarrow> OutOfFuel)"
| "set_sig' n s newValue w = notify' n s (assign s newValue w)"
| "update' n s f w =
     (case f (get s w) of
        Inl e \<Rightarrow> Threw e w
      | Inr newValue \<Rightarrow> notify' n s (assign s newValue w))"
| "call_fn' n (Fn f) v w = run_body' n (funs w f v) (record_event (Call (Fn f) v) w)"
| "call_fn' n (Recompute c k) v w =
     (case computeFns w c (\<lambda>s. get s w) of
        Inl e \<Rightarrow> Threw e (record_event (Compute c) (record_event (Call (Recompute c k) v) w))
      | Inr x \<Rightarrow> set_sig' n c x (record_event (Compute c) (record_event (Call (Recompute c k) v) w)))"
| "run_action' n (SetSig s v) w = set_sig' n s v w"
| "run_action' n (UpdateSig s f) w = update' n s f w"
| "run_action' n (Subscribe s f) w = Done (subscribe s (Fn f) w)"
| "run_action' n (Unsubscribe s f) w = Done (unsubscribe s (Fn f) w)"
| "run_action' n (Throw x) w = Threw (Thrown x) w"
| "run_body' n [] w = Done w"
| "run_body' n (a # as) w =
     (case run_action' n a w of
        Done w' \<Rightarrow> run_body' n as w'
      | Threw e w' \<Rightarrow> Threw e w'
      | OutOfFuel \<Rightarrow> OutOfFuel)"
  by pat_completeness auto
termination
  by (relation "measures
        [\<lambda>x. case x of
            Inl (Inl (n, s, i, w)) \<Rightarrow> n
          | Inl (Inr (Inl (n, s, w))) \<Rightarrow> n
          | Inl (Inr (Inr (n, s, v, w))) \<Rightarrow> n
          | Inr (Inl (Inl (n, s, f, w))) \<Rightarrow> n
          | Inr (Inl (Inr (n, fn, v, w))) \<Rightarrow> n
          | Inr (Inr (Inl (n, a, w))) \<Rightarrow> n
          | Inr (Inr (Inr (n, as, w))) \<Rightarrow> n,
         \<lambda>x. case x of
            Inl (Inl (n, s, i, w)) \<Rightarrow> 0
          | Inl (Inr (Inl (n, s, w))) \<Rightarrow> 1
          | Inl (Inr (Inr (n, s, v, w))) \<Rightarrow> 2
          | Inr (Inl (Inl (n, s, f, w))) \<Rightarrow> 2
          | Inr (Inl (Inr (n, fn, v, w))) \<Rightarrow> 5
          | Inr (Inr (Inl (n, a, w))) \<Rightarrow> 3
          | Inr (Inr (Inr (n, as, w))) \<Rightarrow> 4,
         \<lambda>x. case x of
            Inr (Inr (Inr (n, as, w))) \<Rightarrow> length as
          | _ \<Rightarrow> 0]") auto


definition createSignal' :: "nat \<Rightarrow> string \<Rightarrow> jsval \<Rightarrow> world \<Rightarrow> sid \<times> outcome" where
  "createSignal' n name initialValue w =
     (case querySelectorAll_read name w of
        Inl e \<Rightarrow> (next_signal w, Threw e w)
      | Inr rs \<Rightarrow>
          (case querySelectorAll_checker name w of
             Inl e \<Rightarrow> (next_signal w, Threw e w)
           | Inr cs \<Rightarrow> (next_signal w, notify' n (next_signal w) (new_signal rs cs initialValue w))))"

section \<open>Auxiliary notions\<close>

text \<open>
  \<open>final r\<close> is the world an outcome leaves, whether the call returned or raised;
  \<open>returned r\<close> is the world of a call that returned; \<open>and_then r k\<close> goes on with
  \<open>k\<close> after a call that returned. \<open>same_static w w'\<close>: the parts of the world that
  no call changes are the same.
\<close>

fun final :: "outcome \<Rightarrow> world option" where
  "final (Done w) = Some w"
| "final (Threw e w) = Some w"
| "final OutOfFuel = None"

fun returned :: "outcome \<Rightarrow> world option" where
  "returned (Done w) = Some w"
| "returned (Threw e w) = None"
| "returned OutOfFuel = None"

fun and_then :: "outcome \<Rightarrow> (world \<Rightarrow> outcome) \<Rightarrow> outcome" where
  "and_then (Done w) k = k w"
| "and_then (Threw e w) k = Threw e w"
| "and_then OutOfFuel k = OutOfFuel"

text \<open>
  \<open>printable v\<close>: the conversion of \<open>v\<close> to a string returns; \<open>text_of v\<close> is then the
  string, and \<open>conversion_error v\<close> otherwise the exception. \<open>writable s w\<close>: the loop
  over the display targets of \<open>s\<close> does not raise, because there is no target or the
  value is printable. \<open>paint s w\<close> is the world with the targets of \<open>s\<close> written.
  \<open>text_at\<close>, \<open>classes_at\<close> and \<open>computations\<close> read an element's text, its classes,
  and the number of evaluations of a compute function on record; \<open>evaluate f w\<close> is
  what the compute function \<open>f\<close> gives on the values of \<open>w\<close>.
\<close>

definition printable :: "jsval \<Rightarrow> bool" where
  "printable v = (case to_string v of Inl e \<Rightarrow> False | Inr text \<Rightarrow> True)"

definition text_of :: "jsval \<Rightarrow> string" where
  "text_of v = (case to_string v of Inl e \<Rightarrow> [] | Inr text \<Rightarrow> text)"

definition conversion_error :: "jsval \<Rightarrow> error" where
  "conversion_error v = (case to_string v of Inl e \<Rightarrow> e | Inr text \<Rightarrow> TypeError)"

definition writable :: "sid \<Rightarrow> world \<Rightarrow> bool" where
  "writable s w \<longleftrightarrow> readers (signals w s) = [] \<or> printable (get s w)"

definition put_text :: "string \<Rightarrow> world \<Rightarrow> elem \<Rightarrow> world" where
  "put_text text w e = w\<lparr>elements := (elements w)(e := (elements w e)\<lparr>innerText := text\<rparr>)\<rparr>"

definition paint :: "sid \<Rightarrow> world \<Rightarrow> world" where
  "paint s w =
     (let w1 = foldl (put_text (text_of (get s w))) w (readers (signals w s))
      in foldl (write_checker s) w1 (checkers (signals w1 s)))"

definition text_at :: "elem \<Rightarrow> world \<Rightarrow> string" where
  "text_at e w = innerText (elements w e)"

definition classes_at :: "elem \<Rightarrow> world \<Rightarrow> string list" where
  "classes_at e w = classList (elements w e)"



definition same_static :: "world \<Rightarrow> world \<Rightarrow> bool" where
  "same_static w w' \<longleftrightarrow>
     funs w' = funs w \<and> computeFns w' = computeFns w \<and> next_signal w' = next_signal w \<and>
     document w' = document w \<and> querySelectorAll_other w' = querySelectorAll_other w \<and>
     (\<forall>t. readers (signals w' t) = readers (signals w t) \<and>
          checkers (signals w' t) = checkers (signals w t))"

text \<open>A page with one display target (element 0) and one visibility target (element 1) for
  the name \<^verbatim>\<open>count\<close>, before any signal is created. Its host answers
  \<open>SyntaxError\<close> to the selector of every name that is not plain, as a browser does
  for the name that is a single double quote.\<close>

definition page :: world where
  "page =
     \<lparr>signals = (\<lambda>s. \<lparr>sig_value = Undefined, subscribers = [], readers = [], checkers = []\<rparr>),
      next_signal = 0,
      computeFns = (\<lambda>c view. Inr Undefined),
      funs = (\<lambda>f v. []),
      document = [0, 1],
      elements = (\<lambda>e. \<lparr>data_signal_read = (if e = 0 then Some ''count'' else None),
                         data_signal_checker = (if e = 1 then Some ''count'' else None),
                         innerText = [], classList = []\<rparr>),
      querySelectorAll_other = (\<lambda>selector. Inl SyntaxError),
      calls = []\<rparr>"

text \<open>
  \<open>live es\<close> lists the members of a Set in insertion order, leaving out the empty slots.
  An \<open>observer\<close> is a caller's function that performs no signal operation (its body is
  empty for every argument); an \<open>unsubscriber\<close> is one whose body only calls unsubscribe
  handles. \<open>record_events\<close> appends to the record of calls. \<open>only_removed w w'\<close>:
  from \<open>w\<close> to \<open>w'\<close> nothing happened but deletions from subscriber sets.
\<close>

fun live :: "'a option list \<Rightarrow> 'a list" where
  "live [] = []"
| "live (None # es) = live es"
| "live (Some x # es) = x # live es"

fun observer :: "world \<Rightarrow> callback \<Rightarrow> bool" where
  "observer w (Fn f) = (\<forall>v. funs w f v = [])"
| "observer w (Recompute c k) = False"

definition record_events :: "event list \<Rightarrow> world \<Rightarrow> world" where
  "record_events evs w = w\<lparr>calls := calls w @ evs\<rparr>"

fun is_unsubscribe :: "action \<Rightarrow> bool" where
  "is_unsubscribe (Unsubscribe t f) = True"
| "is_unsubscribe a = False"

fun unsubscriber :: "world \<Rightarrow> callback \<Rightarrow> bool" where
  "unsubscriber w (Fn f) = (\<forall>v. list_all is_unsubscribe (funs w f v))"
| "unsubscriber w (Recompute c k) = False"

definition only_removed :: "world \<Rightarrow> world \<Rightarrow> bool" where
  "only_removed w w' \<longleftrightarrow>
     funs w' = funs w \<and> (\<forall>t. get t w' = get t w) \<and>
     (\<forall>t. length (subscribers (signals w' t)) = length (subscribers (signals w t)) \<and>
          (\<forall>j < length (subscribers (signals w t)).
             subscribers (signals w' t) ! j = subscribers (signals w t) ! j \<or>
             subscribers (signals w' t) ! j = None))"

text \<open>
  The example page after \<^verbatim>\<open>createSignal('count', 0)\<close> and the subscription of
  three functions 0, 1 and 2, whose bodies are the parameter: the signal has reference
  0, the display target shows \<^verbatim>\<open>0\<close> and the visibility target has no class.
\<close>

definition counter :: "(fid \<Rightarrow> jsval \<Rightarrow> action list) \<Rightarrow> world" where
  "counter bodies =
     \<lparr>signals = (\<lambda>s. if s = 0
                     then \<lparr>sig_value = Num 0,
                           subscribers = [Some (Fn 0), Some (Fn 1), Some (Fn 2)],
                           readers = [0], checkers = [1]\<rparr>
                     else \<lparr>sig_value = Undefined, subscribers = [], readers = [], checkers = []\<rparr>),
      next_signal = 1,
      computeFns = (\<lambda>c view. Inr Undefined),
      funs = bodies,
      document = [0, 1],
      elements = (\<lambda>e. \<lparr>data_signal_read = (if e = 0 then Some ''count'' else None),
                         data_signal_checker = (if e = 1 then Some ''count'' else None),
                         innerText = (if e = 0 then ''0'' else []), classList = []\<rparr>),
      querySelectorAll_other = (\<lambda>selector. Inl SyntaxError),
      calls = []\<rparr>"

text \<open>Bodies for the examples: all three observe; the first unsubscribes itself and the
  third; the second throws; the first sets the signal to \<open>99\<close> whenever it is called
  with another value.\<close>

definition observers_only :: "fid \<Rightarrow> jsval \<Rightarrow> action list" where
  "observers_only f v = []"


definition second_throws :: "fid \<Rightarrow> jsval \<Rightarrow> action list" where
  "second_throws f v = (if f = 1 then [Throw (Str ''boom'')] else [])"

definition resetting :: "fid \<Rightarrow> jsval \<Rightarrow> action list" where
  "resetting f v = (if f = 0 \<and> v \<noteq> Num 99 then [SetSig 0 (Num 99)] else [])"

text \<open>
  \<open>writes s a\<close>: the operation \<open>a\<close> is a \<^verbatim>\<open>set\<close> or an \<^verbatim>\<open>update\<close> on the
  signal \<open>s\<close>. \<open>no_writer s w\<close>: no function of the world contains such an operation, and
  \<open>s\<close> is not the internal signal of a computed signal; then the only writes to \<open>s\<close>
  are the caller's own.

  A caller issues \<^verbatim>\<open>set\<close> and \<^verbatim>\<open>update\<close> calls on one signal, one after the other
  (\<open>perform_all\<close>); a call that raises has raised to the caller, who goes on with the
  next. \<open>written previous c\<close> is the value the call \<open>c\<close> writes when the signal holds
  \<open>previous\<close>: an update whose function throws writes nothing.
\<close>

fun writes :: "sid \<Rightarrow> action \<Rightarrow> bool" where
  "writes s (SetSig t v) = (t = s)"
| "writes s (UpdateSig t f) = (t = s)"
| "writes s a = False"

definition no_writer :: "sid \<Rightarrow> world \<Rightarrow> bool" where
  "no_writer s w \<longleftrightarrow>
     (\<forall>f v. \<forall>a\<in>set (funs w f v). \<not> writes s a) \<and>
     (\<forall>t k. Some (Recompute s k) \<notin> set (subscribers (signals w t)))"

datatype call = SetCall jsval | UpdateCall "jsval \<Rightarrow> error + jsval"

fun perform :: "nat \<Rightarrow> sid \<Rightarrow> call \<Rightarrow> world \<Rightarrow> outcome" where
  "perform n s (SetCall v) w = set_sig n s v w"
| "perform n s (UpdateCall f) w = update n s f w"

fun perform_all :: "nat \<Rightarrow> sid \<Rightarrow> call list \<Rightarrow> world \<Rightarrow> world option" where
  "perform_all n s [] w = Some w"
| "perform_all n s (c # cs) w =
     (case final (perform n s c w) of
        None \<Rightarrow> None
      | Some w' \<Rightarrow> perform_all n s cs w')"

fun written :: "jsval \<Rightarrow> call \<Rightarrow> jsval" where
  "written previous (SetCall v) = v"
| "written previous (UpdateCall f) = (case f previous of Inl e \<Rightarrow> previous | Inr v \<Rightarrow> v)"

text \<open>
  A compute function \<open>depends_only_on\<close> its dependencies when it gives the same result on
  any two views that agree on them. \<open>computed_inv c f deps w\<close> is what
  \<^verbatim>\<open>createComputed\<close> sets up for the computed signal with internal signal \<open>c\<close>: the
  closures hold \<open>f\<close>; \<open>c\<close> is not its own dependency; no function of the caller
  writes \<open>c\<close> (the returned object has no \<^verbatim>\<open>set\<close> and no \<^verbatim>\<open>update\<close>); and a
  recomputing closure is subscribed to every dependency. \<open>up_to_date c w\<close>: the value of
  \<open>c\<close> is the compute function's result on the current values. \<open>keeps_closures w w'\<close>:
  every recomputing closure registered in \<open>w\<close> is registered in \<open>w'\<close>, at the same
  position. \<open>same_values c deps w w'\<close>: \<open>c\<close> and the dependencies hold in \<open>w'\<close> what they
  held in \<open>w\<close>.

  A subscriber is \<open>steady\<close> when it is an observer, or the recomputing closure of a
  computed signal whose compute function returns on every view, whose display targets
  can be written with what it returns, and whose own subscribers are observers.
  \<open>same_shape w w'\<close>: the two worlds differ in values, elements and the record only.
\<close>

definition depends_only_on :: "((sid \<Rightarrow> jsval) \<Rightarrow> error + jsval) \<Rightarrow> sid list \<Rightarrow> bool" where
  "depends_only_on f deps \<longleftrightarrow>
     (\<forall>view view'. (\<forall>d\<in>set deps. view d = view' d) \<longrightarrow> f view = f view')"

definition computed_inv ::
  "sid \<Rightarrow> ((sid \<Rightarrow> jsval) \<Rightarrow> error + jsval) \<Rightarrow> sid list \<Rightarrow> world \<Rightarrow> bool" where
  "computed_inv c f deps w \<longleftrightarrow>
     computeFns w c = f \<and> c \<notin> set deps \<and> depends_only_on f deps \<and>
     (\<forall>g v. \<forall>a\<in>set (funs w g v). \<not> writes c a) \<and>
     (\<forall>d\<in>set deps. \<exists>k. Some (Recompute c k) \<in> set (subscribers (signals w d)))"

definition keeps_closures :: "world \<Rightarrow> world \<Rightarrow> bool" where
  "keeps_closures w w' \<longleftrightarrow>
     (\<forall>t j c k. j < length (subscribers (signals w t)) \<and>
                subscribers (signals w t) ! j = Some (Recompute c k) \<longrightarrow>
                j < length (subscribers (signals w' t)) \<and>
                subscribers (signals w' t) ! j = Some (Recompute c k))"

definition up_to_date :: "sid \<Rightarrow> world \<Rightarrow> bool" where
  "up_to_date c w \<longleftrightarrow> computeFns w c (\<lambda>s. get s w) = Inr (get c w)"

fun steady :: "world \<Rightarrow> callback \<Rightarrow> bool" where
  "steady w (Fn f) = (\<forall>v. funs w f v = [])"
| "steady w (Recompute c k) =
     ((\<forall>view. \<exists>x. computeFns w c view = Inr x \<and> (readers (signals w c) = [] \<or> printable x)) \<and>
      (\<forall>h. Some h \<in> set (subscribers (signals w c)) \<longrightarrow> observer w h))"

definition same_shape :: "world \<Rightarrow> world \<Rightarrow> bool" where
  "same_shape w w' \<longleftrightarrow>
     funs w' = funs w \<and> computeFns w' = computeFns w \<and>
     (\<forall>t. subscribers (signals w' t) = subscribers (signals w t) \<and>
          readers (signals w' t) = readers (signals w t) \<and>
          checkers (signals w' t) = checkers (signals w t))"

definition same_values :: "sid \<Rightarrow> sid list \<Rightarrow> world \<Rightarrow> world \<Rightarrow> bool" where
  "same_values c deps w w' \<longleftrightarrow> get c w' = get c w \<and> (\<forall>d\<in>set deps. get d w' = get d w)"


text \<open>Two signals, 0 and 1, both holding \<open>0\<close>, with nothing subscribed and nothing bound;
  and the sum of two numbers.\<close>

definition two_signals :: world where
  "two_signals =
     \<lparr>signals = (\<lambda>s. \<lparr>sig_value = (if s < 2 then Num 0 else Undefined), subscribers = [],
                       readers = [], checkers = []\<rparr>),
      next_signal = 2,
      computeFns = (\<lambda>c view. Inr Undefined),
      funs = (\<lambda>f v. []),
      document = [],
      elements = elements page,
      querySelectorAll_other = (\<lambda>selector. Inl SyntaxError),
      calls = []\<rparr>"



text \<open>\<open>no_duplicates w\<close>: no subscriber set of \<open>w\<close> holds a function twice, as in every
  JavaScript Set.\<close>

definition no_duplicates :: "world \<Rightarrow> bool" where
  "no_duplicates w \<longleftrightarrow> (\<forall>s. distinct (live (subscribers (signals w s))))"


section \<open>Basic facts\<close>

subsection \<open>Frame facts of the world updates\<close>

lemma get_assign [simp]: "get t (assign s v w) = (if t = s then v else get t w)"
  by (simp add: get_def assign_def)

lemma assign_fields [simp]:
  "subscribers (signals (assign s v w) t) = subscribers (signals w t)"
  "readers (signals (assign s v w) t) = readers (signals w t)"
  "checkers (signals (assign s v w) t) = checkers (signals w t)"
  "funs (assign s v w) = funs w"
  "computeFns (assign s v w) = computeFns w"
  "calls (assign s v w) = calls w"
  "elements (assign s v w) = elements w"
  "next_signal (assign s v w) = next_signal w"
  "document (assign s v w) = document w"
  "querySelectorAll_other (assign s v w) = querySelectorAll_other w"
  by (simp_all add: assign_def)

lemma assign_assign [simp]: "assign s v (assign s u w) = assign s v w"
  by (simp add: assign_def)

lemma record_event_fields [simp]:
  "signals (record_event ev w) = signals w"
  "get t (record_event ev w) = get t w"
  "funs (record_event ev w) = funs w"
  "computeFns (record_event ev w) = computeFns w"
  "calls (record_event ev w) = calls w @ [ev]"
  "elements (record_event ev w) = elements w"
  "next_signal (record_event ev w) = next_signal w"
  "document (record_event ev w) = document w"
  "querySelectorAll_other (record_event ev w) = querySelectorAll_other w"
  by (simp_all add: record_event_def get_def)

lemma subscribe_fields [simp]:
  "subscribers (signals (subscribe s fn w) t) =
     (if t = s then Set_add fn (subscribers (signals w s)) else subscribers (signals w t))"
  "get t (subscribe s fn w) = get t w"
  "readers (signals (subscribe s fn w) t) = readers (signals w t)"
  "checkers (signals (subscribe s fn w) t) = checkers (signals w t)"
  "funs (subscribe s fn w) = funs w"
  "computeFns (subscribe s fn w) = computeFns w"
  "calls (subscribe s fn w) = calls w"
  "elements (subscribe s fn w) = elements w"
  "next_signal (subscribe s fn w) = next_signal w"
  "document (subscribe s fn w) = document w"
  "querySelectorAll_other (subscribe s fn w) = querySelectorAll_other w"
  by (simp_all add: subscribe_def get_def)

lemma unsubscribe_fields [simp]:
  "subscribers (signals (unsubscribe s fn w) t) =
     (if t = s then Set_delete fn (subscribers (signals w s)) else subscribers (signals w t))"
  "get t (unsubscribe s fn w) = get t w"
  "readers (signals (unsubscribe s fn w) t) = readers (signals w t)"
  "checkers (signals (unsubscribe s fn w) t) = checkers (signals w t)"
  "funs (unsubscribe s fn w) = funs w"
  "computeFns (unsubscribe s fn w) = computeFns w"
  "calls (unsubscribe s fn w) = calls w"
  "elements (unsubscribe s fn w) = elements w"
  "next_signal (unsubscribe s fn w) = next_signal w"
  "document (unsubscribe s fn w) = document w"
  "querySelectorAll_other (unsubscribe s fn w) = querySelectorAll_other w"
  by (simp_all add: unsubscribe_def get_def)

lemma put_text_fields [simp]:
  "signals (put_text text w e) = signals w"
  "get t (put_text text w e) = get t w"
  "funs (put_text text w e) = funs w"
  "computeFns (put_text text w e) = computeFns w"
  "calls (put_text text w e) = calls w"
  "next_signal (put_text text w e) = next_signal w"
  "document (put_text text w e) = document w"
  "querySelectorAll_other (put_text text w e) = querySelectorAll_other w"
  "classList (elements (put_text text w e) x) = classList (elements w x)"
  "data_signal_read (elements (put_text text w e) x) = data_signal_read (elements w x)"
  "data_signal_checker (elements (put_text text w e) x) = data_signal_checker (elements w x)"
  "innerText (elements (put_text text w e) x) = (if x = e then text else innerText (elements w x))"
  by (simp_all add: put_text_def get_def)

lemma write_checker_fields [simp]:
  "signals (write_checker s w e) = signals w"
  "get t (write_checker s w e) = get t w"
  "funs (write_checker s w e) = funs w"
  "computeFns (write_checker s w e) = computeFns w"
  "calls (write_checker s w e) = calls w"
  "next_signal (write_checker s w e) = next_signal w"
  "document (write_checker s w e) = document w"
  "querySelectorAll_other (write_checker s w e) = querySelectorAll_other w"
  "innerText (elements (write_checker s w e) x) = innerText (elements w x)"
  "data_signal_read (elements (write_checker s w e) x) = data_signal_read (elements w x)"
  "data_signal_checker (elements (write_checker s w e) x) = data_signal_checker (elements w x)"
  "classList (elements (write_checker s w e) x) =
     (if x = e then classList_toggle ''visible'' (truthy (get s w)) (classList (elements w e))
      else classList (elements w x))"
  by (simp_all add: write_checker_def get_def)

lemma foldl_put_text_fields [simp]:
  "signals (foldl (put_text text) w es) = signals w"
  "get t (foldl (put_text text) w es) = get t w"
  "funs (foldl (put_text text) w es) = funs w"
  "computeFns (foldl (put_text text) w es) = computeFns w"
  "calls (foldl (put_text text) w es) = calls w"
  "next_signal (foldl (put_text text) w es) = next_signal w"
  "document (foldl (put_text text) w es) = document w"
  "querySelectorAll_other (foldl (put_text text) w es) = querySelectorAll_other w"
  "classList (elements (foldl (put_text text) w es) x) = classList (elements w x)"
  "data_signal_read (elements (foldl (put_text text) w es) x) = data_signal_read (elements w x)"
  "data_signal_checker (elements (foldl (put_text text) w es) x) = data_signal_checker (elements w x)"
  by (induction es arbitrary: w; simp)+

lemma foldl_write_checker_fields [simp]:
  "signals (foldl (write_checker s) w es) = signals w"
  "get t (foldl (write_checker s) w es) = get t w"
  "funs (foldl (write_checker s) w es) = funs w"
  "computeFns (foldl (write_checker s) w es) = computeFns w"
  "calls (foldl (write_checker s) w es) = calls w"
  "next_signal (foldl (write_checker s) w es) = next_signal w"
  "document (foldl (write_checker s) w es) = document w"
  "querySelectorAll_other (foldl (write_checker s) w es) = querySelectorAll_other w"
  "innerText (elements (foldl (write_checker s) w es) x) = innerText (elements w x)"
  "data_signal_read (elements (foldl (write_checker s) w es) x) = data_signal_read (elements w x)"
  "data_signal_checker (elements (foldl (write_checker s) w es) x) = data_signal_checker (elements w x)"
  by (induction es arbitrary: w; simp)+

lemma foldl_put_text_text:
  "innerText (elements (foldl (put_text text) w es) x) =
     (if x \<in> set es then text else innerText (elements w x))"
  by (induction es arbitrary: w) auto

lemma toggle_visible [simp]:
  "tok \<in> set (classList_toggle tok force l) \<longleftrightarrow> force"
  by (simp add: classList_toggle_def)

lemma toggle_idem [simp]:
  "classList_toggle tok force (classList_toggle tok force l) = classList_toggle tok force l"
  by (simp add: classList_toggle_def)

lemma foldl_write_checker_class:
  "classList (elements (foldl (write_checker s) w es) x) =
     (if x \<in> set es then classList_toggle ''visible'' (truthy (get s w)) (classList (elements w x))
      else classList (elements w x))"
  by (induction es arbitrary: w) auto

lemma paint_fields [simp]:
  "signals (paint s w) = signals w"
  "get t (paint s w) = get t w"
  "funs (paint s w) = funs w"
  "computeFns (paint s w) = computeFns w"
  "calls (paint s w) = calls w"
  "next_signal (paint s w) = next_signal w"
  "document (paint s w) = document w"
  "querySelectorAll_other (paint s w) = querySelectorAll_other w"
  "data_signal_read (elements (paint s w) x) = data_signal_read (elements w x)"
  "data_signal_checker (elements (paint s w) x) = data_signal_checker (elements w x)"
  by (simp_all add: paint_def Let_def)

lemma paint_text:
  "innerText (elements (paint s w) x) =
     (if x \<in> set (readers (signals w s)) then text_of (get s w) else innerText (elements w x))"
  by (simp add: paint_def Let_def foldl_put_text_text)

lemma paint_class:
  "classList (elements (paint s w) x) =
     (if x \<in> set (checkers (signals w s))
      then classList_toggle ''visible'' (truthy (get s w)) (classList (elements w x))
      else classList (elements w x))"
  by (simp add: paint_def Let_def foldl_write_checker_class)

subsection \<open>The loops over the bound elements\<close>

text \<open>The loop over the display targets raises at the first target, when the value is
  not printable, and writes them all otherwise.\<close>

lemma printable_cases:
  "printable v \<Longrightarrow> to_string v = Inr (text_of v)"
  "\<not> printable v \<Longrightarrow> to_string v = Inl (conversion_error v)"
  by (simp_all add: printable_def text_of_def conversion_error_def split: sum.splits)

lemma write_reader_eq:
  "write_reader s w e =
     (if printable (get s w) then Inr (put_text (text_of (get s w)) w e)
      else Inl (conversion_error (get s w)))"
  by (simp add: write_reader_def put_text_def printable_cases)

lemma forEach_readers:
  "forEach_elem (write_reader s) w es =
     (if es = [] \<or> printable (get s w) then Inr (foldl (put_text (text_of (get s w))) w es)
      else Inl (conversion_error (get s w)))"
proof (induction es arbitrary: w)
  case Nil
  then show ?case by simp
next
  case (Cons e es)
  show ?case
  proof (cases "printable (get s w)")
    case True
    then show ?thesis
      using Cons.IH [of "put_text (text_of (get s w)) w e"] by (simp add: write_reader_eq)
  next
    case False
    then show ?thesis
      by (simp add: write_reader_eq)
  qed
qed

lemma write_targets_eq:
  "write_targets s w =
     (if writable s w then Inr (paint s w) else Inl (conversion_error (get s w)))"
  by (simp add: write_targets_def forEach_readers writable_def paint_def Let_def)

lemma notify_eq:
  "notify n s w =
     (case forEach_subs n s 0 w of
        Done w' \<Rightarrow>
          (if writable s w' then Done (paint s w') else Threw (conversion_error (get s w')) w')
      | Threw e w' \<Rightarrow> Threw e w'
      | OutOfFuel \<Rightarrow> OutOfFuel)"
  by (simp add: notify.simps write_targets_eq split: outcome.splits)

declare notify.simps [simp del]
declare notify_eq [simp]

lemma writable_steps [simp]:
  "writable s (record_event ev w) = writable s w"
  "writable s (paint t w) = writable s w"
  "writable s (subscribe t fn w) = writable s w"
  "writable s (unsubscribe t fn w) = writable s w"
  by (simp_all add: writable_def)

lemma writable_assign:
  "writable s (assign t v w) =
     (if t = s then readers (signals w s) = [] \<or> printable v else writable s w)"
  by (simp add: writable_def)

lemma same_static_refl [simp]: "same_static w w"
  by (simp add: same_static_def)

lemma same_static_trans: "same_static w w1 \<Longrightarrow> same_static w1 w2 \<Longrightarrow> same_static w w2"
  by (simp add: same_static_def)

lemma same_static_steps [simp]:
  "same_static w (assign s v w)"
  "same_static w (record_event ev w)"
  "same_static w (subscribe s fn w)"
  "same_static w (unsubscribe s fn w)"
  "same_static w (paint s w)"
  by (simp_all add: same_static_def)

lemma same_static_after:
  "same_static w w1 \<Longrightarrow> same_static (assign s v w) w1"
  "same_static w w1 \<Longrightarrow> same_static (record_event ev w) w1"
  "same_static w1 w \<Longrightarrow> same_static w1 (paint s w)"
  by (simp_all add: same_static_def)

lemma run_static:
  "\<forall>w'. final (forEach_subs n s i w) = Some w' \<longrightarrow> same_static w w'"
  "\<forall>w'. final (notify n s w) = Some w' \<longrightarrow> same_static w w'"
  "\<forall>w'. final (set_sig n s v w) = Some w' \<longrightarrow> same_static w w'"
  "\<forall>w'. final (update n s f w) = Some w' \<longrightarrow> same_static w w'"
  "\<forall>w'. final (call_fn n fn v w) = Some w' \<longrightarrow> same_static w w'"
  "\<forall>w'. final (run_action n a w) = Some w' \<longrightarrow> same_static w w'"
  "\<forall>w'. final (run_body n as w) = Some w' \<longrightarrow> same_static w w'"
proof (induct n s i w and n s w and n s v w and n s f w and n fn v w and n a w and n as w
      rule: forEach_subs_notify_set_sig_update_call_fn_run_action_run_body.induct)
  case (1 s i w)
  then show ?case by simp
next
  case (2 n s i w)
  then show ?case
    by (auto split: option.splits outcome.splits if_splits intro: same_static_trans)
next
  case (3 n s w)
  then show ?case
    by (auto split: outcome.splits intro: same_static_after)
next
  case (4 n s newValue w)
  then show ?case
    using same_static_trans [OF same_static_steps(1)] by auto
next
  case (5 n s f w)
  then show ?case
    using same_static_trans [OF same_static_steps(1)] by (auto split: sum.splits)
next
  case (6 n f v w)
  then show ?case
    using same_static_trans [OF same_static_steps(2)] by auto
next
  case (7 n c k v w)
  then show ?case
    by (auto split: sum.splits simp: same_static_def)
next
  case (13 n w)
  then show ?case by simp
next
  case (14 n a as w)
  then show ?case
    by (auto split: outcome.splits intro: same_static_trans)
qed simp_all

lemma forEach_subs_end:
  "length (subscribers (signals w s)) \<le> i \<Longrightarrow> forEach_subs n s i w = Done w"
  by (cases n) simp_all

section \<open>The two implementations agree\<close>

lemma classList_toggle_eq:
  "classList_toggle tok force l = (if force then classList_add tok l else classList_remove tok l)"
  by (simp add: classList_toggle_def classList_add_def classList_remove_def)

lemma write_checker'_eq: "write_checker' s w e = write_checker s w e"
  by (simp add: write_checker'_def write_checker_def classList_toggle_eq)

lemma write_targets'_eq: "write_targets' s w = write_targets s w"
proof -
  have "write_checker' s = write_checker s"
    by (intro ext) (rule write_checker'_eq)
  then show ?thesis
    by (simp add: write_targets'_def write_targets_def split: sum.splits)
qed

lemma interp_eq:
  "forEach_subs' n s i w = forEach_subs n s i w"
  "notify' n s w = notify n s w"
  "set_sig' n s v w = set_sig n s v w"
  "update' n s f w = update n s f w"
  "call_fn' n fn v w = call_fn n fn v w"
  "run_action' n a w = run_action n a w"
  "run_body' n as w = run_body n as w"
  by (induct n s i w and n s w and n s v w and n s f w and n fn v w and n a w and n as w
      rule: forEach_subs_notify_set_sig_update_call_fn_run_action_run_body.induct)
     (simp_all add: write_targets'_eq notify.simps del: notify_eq split: option.splits outcome.splits sum.splits)

section \<open>Construction and the example page\<close>

lemma new_signal_fields [simp]:
  "signals (new_signal rs cs v w) t =
     (if t = next_signal w
      then \<lparr>sig_value = v, subscribers = [], readers = rs, checkers = cs\<rparr>
      else signals w t)"
  "get t (new_signal rs cs v w) = (if t = next_signal w then v else get t w)"
  "next_signal (new_signal rs cs v w) = Suc (next_signal w)"
  "funs (new_signal rs cs v w) = funs w"
  "computeFns (new_signal rs cs v w) = computeFns w"
  "calls (new_signal rs cs v w) = calls w"
  "elements (new_signal rs cs v w) = elements w"
  "document (new_signal rs cs v w) = document w"
  "querySelectorAll_other (new_signal rs cs v w) = querySelectorAll_other w"
  by (simp_all add: new_signal_def get_def)

lemma query_plain:
  assumes "css_plain name"
  shows "querySelectorAll_read name w =
           Inr (filter (\<lambda>e. data_signal_read (elements w e) = Some name) (document w))"
    and "querySelectorAll_checker name w =
           Inr (filter (\<lambda>e. data_signal_checker (elements w e) = Some name) (document w))"
  using assms by (simp_all add: querySelectorAll_read_def querySelectorAll_checker_def)

lemma createSignal_eq:
  assumes "querySelectorAll_read name w = Inr rs" and "querySelectorAll_checker name w = Inr cs"
  shows "createSignal n name v w =
     (next_signal w,
      if rs = [] \<or> printable v then Done (paint (next_signal w) (new_signal rs cs v w))
      else Threw (conversion_error v) (new_signal rs cs v w))"
  using assms by (simp add: createSignal_def forEach_subs_end writable_def)

lemma createSignal_DoneD:
  assumes "createSignal n name v w = (c, Done w')"
  shows "\<exists>rs cs. querySelectorAll_read name w = Inr rs \<and> querySelectorAll_checker name w = Inr cs \<and>
           c = next_signal w \<and> (rs = [] \<or> printable v) \<and>
           w' = paint (next_signal w) (new_signal rs cs v w)"
proof (cases "querySelectorAll_read name w")
  case (Inl e)
  with assms show ?thesis by (simp add: createSignal_def)
next
  case rs: (Inr rs)
  show ?thesis
  proof (cases "querySelectorAll_checker name w")
    case (Inl e)
    with assms rs show ?thesis by (simp add: createSignal_def)
  next
    case cs: (Inr cs)
    from assms createSignal_eq [OF rs cs, of n v] rs cs show ?thesis
      by (auto split: if_splits)
  qed
qed

lemma notify_Done_targets:
  assumes "notify n s w = Done w'"
  shows "\<exists>w1. forEach_subs n s 0 w = Done w1 \<and> writable s w1 \<and> w' = paint s w1"
  using assms by (auto split: outcome.splits if_splits)

lemma notify_Done_visible:
  assumes "notify n s w = Done w'" and "e \<in> set (checkers (signals w s))"
  shows "''visible'' \<in> set (classList (elements w' e)) \<longleftrightarrow> truthy (get s w')"
proof -
  from assms(1) obtain w1 where w1: "forEach_subs n s 0 w = Done w1" "w' = paint s w1"
    using notify_Done_targets by blast
  from w1(1) have "same_static w w1"
    using run_static(1) [rule_format, of n s 0 w w1] by simp
  with assms(2) have "e \<in> set (checkers (signals w1 s))"
    by (simp add: same_static_def)
  then show ?thesis
    by (simp add: w1(2) paint_class)
qed

lemma notify_Done_text:
  assumes "notify n s w = Done w'" and "e \<in> set (readers (signals w s))"
  shows "to_string (get s w') = Inr (innerText (elements w' e))"
proof -
  from assms(1) obtain w1 where w1: "forEach_subs n s 0 w = Done w1" "writable s w1"
    "w' = paint s w1"
    using notify_Done_targets by blast
  from w1(1) have "same_static w w1"
    using run_static(1) [rule_format, of n s 0 w w1] by simp
  with assms(2) have e: "e \<in> set (readers (signals w1 s))"
    by (simp add: same_static_def)
  with w1(2) have "printable (get s w1)"
    by (auto simp: writable_def)
  then have "to_string (get s w1) = Inr (text_of (get s w1))"
    by (rule printable_cases)
  with e show ?thesis
    by (simp add: w1(3) paint_text)
qed

lemma page_fields [simp]:
  "next_signal page = 0" "document page = [0, 1]"
  "data_signal_read (elements page e) = (if e = 0 then Some ''count'' else None)"
  "data_signal_checker (elements page e) = (if e = 1 then Some ''count'' else None)"
  "classList (elements page e) = []" "innerText (elements page e) = []"
  "calls page = []" "funs page f v = []"
  "signals page s = \<lparr>sig_value = Undefined, subscribers = [], readers = [], checkers = []\<rparr>"
  "querySelectorAll_other page selector = Inl SyntaxError"
  by (simp_all add: page_def)

lemma page_query [simp]:
  "css_plain ''count''"
  "querySelectorAll_read ''count'' page = Inr [0]"
  "querySelectorAll_checker ''count'' page = Inr [1]"
  by (simp_all add: querySelectorAll_read_def querySelectorAll_checker_def css_plain_def)

section \<open>The Set of subscribers\<close>

lemma live_append [simp]: "live (xs @ ys) = live xs @ live ys"
  by (induction xs rule: live.induct) simp_all

lemma set_live: "set (live es) = {x. Some x \<in> set es}"
  by (induction es rule: live.induct) auto

lemma length_Set_delete [simp]: "length (Set_delete x es) = length es"
  by (induction es) simp_all


lemma set_Set_delete: "set (Set_delete x es) \<subseteq> insert None (set es)"
  by (induction es) auto

lemma live_Set_delete:
  "distinct (live es) \<Longrightarrow> live (Set_delete x es) = removeAll x (live es)"
proof (induction es rule: live.induct)
  case (3 y es)
  then show ?case
    by (auto simp: set_live)
qed simp_all



lemma live_Set_add:
  "live (Set_add x es) = (if x \<in> set (live es) then live es else live es @ [x])"
  by (simp add: Set_add_def set_live)

lemma distinct_Set_add: "distinct (live es) \<Longrightarrow> distinct (live (Set_add x es))"
  by (simp add: live_Set_add)

lemma distinct_Set_delete: "distinct (live es) \<Longrightarrow> distinct (live (Set_delete x es))"
  by (simp add: live_Set_delete distinct_removeAll)




lemma no_duplicates_steps [simp]:
  "no_duplicates (assign s v w) = no_duplicates w"
  "no_duplicates (record_event ev w) = no_duplicates w"
  "no_duplicates (paint s w) = no_duplicates w"
  by (simp_all add: no_duplicates_def)

lemma no_duplicates_subscribe: "no_duplicates w \<Longrightarrow> no_duplicates (subscribe s fn w)"
  by (simp add: no_duplicates_def distinct_Set_add)

lemma no_duplicates_unsubscribe: "no_duplicates w \<Longrightarrow> no_duplicates (unsubscribe s fn w)"
  by (simp add: no_duplicates_def distinct_Set_delete)

text \<open>The subscriber sets stay free of duplicates.\<close>

lemma run_no_duplicates:
  "no_duplicates w \<longrightarrow> (\<forall>w'. final (forEach_subs n s i w) = Some w' \<longrightarrow> no_duplicates w')"
  "no_duplicates w \<longrightarrow> (\<forall>w'. final (notify n s w) = Some w' \<longrightarrow> no_duplicates w')"
  "no_duplicates w \<longrightarrow> (\<forall>w'. final (set_sig n s v w) = Some w' \<longrightarrow> no_duplicates w')"
  "no_duplicates w \<longrightarrow> (\<forall>w'. final (update n s f w) = Some w' \<longrightarrow> no_duplicates w')"
  "no_duplicates w \<longrightarrow> (\<forall>w'. final (call_fn n fn v w) = Some w' \<longrightarrow> no_duplicates w')"
  "no_duplicates w \<longrightarrow> (\<forall>w'. final (run_action n a w) = Some w' \<longrightarrow> no_duplicates w')"
  "no_duplicates w \<longrightarrow> (\<forall>w'. final (run_body n as w) = Some w' \<longrightarrow> no_duplicates w')"
proof (induct n s i w and n s w and n s v w and n s f w and n fn v w and n a w and n as w
      rule: forEach_subs_notify_set_sig_update_call_fn_run_action_run_body.induct)
  case (1 s i w)
  show ?case
  proof (intro impI allI)
    fix w' assume "no_duplicates w" "final (forEach_subs 0 s i w) = Some w'"
    then show "no_duplicates w'"
      by (cases "i < length (subscribers (signals w s))") simp_all
  qed
next
  case (2 n s i w)
  show ?case
  proof (intro impI allI)
    fix w' assume nd: "no_duplicates w" and fin: "final (forEach_subs (Suc n) s i w) = Some w'"
    show "no_duplicates w'"
    proof (cases "i < length (subscribers (signals w s))")
      case False
      with nd fin show ?thesis by simp
    next
      case True
      show ?thesis
      proof (cases "subscribers (signals w s) ! i")
        case None
        with True nd fin 2(1) show ?thesis by simp
      next
        case (Some fn)
        show ?thesis
        proof (cases "call_fn n fn (get s w) w")
          case (Done w1)
          with 2(2) [OF True Some] nd have "no_duplicates w1" by simp
          with 2(3) [OF True Some Done] fin True Some Done show ?thesis by simp
        next
          case (Threw e w1)
          with 2(2) [OF True Some] nd fin True Some show ?thesis by simp
        next
          case OutOfFuel
          with fin True Some show ?thesis by simp
        qed
      qed
    qed
  qed
next
  case (3 n s w)
  then show ?case
    by (cases "forEach_subs n s 0 w") simp_all
next
  case (4 n s newValue w)
  then show ?case by simp
next
  case (5 n s f w)
  then show ?case
    by (cases "f (get s w)") simp_all
next
  case (6 n f v w)
  then show ?case by simp
next
  case (7 n c k v w)
  then show ?case
    by (cases "computeFns w c (\<lambda>s. get s w)") simp_all
next
  case (8 n s v w)
  then show ?case by simp
next
  case (9 n s f w)
  then show ?case by simp
next
  case (10 n s f w)
  show ?case
  proof (intro impI allI)
    fix w' assume "no_duplicates w" "final (run_action n (Subscribe s f) w) = Some w'"
    then show "no_duplicates w'"
      using no_duplicates_subscribe [of w s "Fn f"] by auto
  qed
next
  case (11 n s f w)
  show ?case
  proof (intro impI allI)
    fix w' assume "no_duplicates w" "final (run_action n (Unsubscribe s f) w) = Some w'"
    then show "no_duplicates w'"
      using no_duplicates_unsubscribe [of w s "Fn f"] by auto
  qed
next
  case (12 n x w)
  then show ?case by simp
next
  case (13 n w)
  then show ?case by simp
next
  case (14 n a as w)
  show ?case
  proof (intro impI allI)
    fix w' assume nd: "no_duplicates w" and fin: "final (run_body n (a # as) w) = Some w'"
    show "no_duplicates w'"
    proof (cases "run_action n a w")
      case (Done w1)
      with 14(1) nd have "no_duplicates w1" by simp
      with 14(2) [OF Done] fin Done show ?thesis by simp
    next
      case (Threw e w1)
      with 14(1) nd fin show ?thesis by simp
    next
      case OutOfFuel
      with fin show ?thesis by simp
    qed
  qed
qed

section \<open>Fuel\<close>

text \<open>A run that returns or raises with some fuel does the same with any larger fuel.\<close>

lemma fuel_Suc:
  "forEach_subs n s i w \<noteq> OutOfFuel \<longrightarrow> forEach_subs (Suc n) s i w = forEach_subs n s i w"
  "notify n s w \<noteq> OutOfFuel \<longrightarrow> notify (Suc n) s w = notify n s w"
  "set_sig n s v w \<noteq> OutOfFuel \<longrightarrow> set_sig (Suc n) s v w = set_sig n s v w"
  "update n s f w \<noteq> OutOfFuel \<longrightarrow> update (Suc n) s f w = update n s f w"
  "call_fn n fn v w \<noteq> OutOfFuel \<longrightarrow> call_fn (Suc n) fn v w = call_fn n fn v w"
  "run_action n a w \<noteq> OutOfFuel \<longrightarrow> run_action (Suc n) a w = run_action n a w"
  "run_body n as w \<noteq> OutOfFuel \<longrightarrow> run_body (Suc n) as w = run_body n as w"
proof (induct n s i w and n s w and n s v w and n s f w and n fn v w and n a w and n as w
      rule: forEach_subs_notify_set_sig_update_call_fn_run_action_run_body.induct)
  case (1 s i w)
  then show ?case by (simp add: forEach_subs_end)
next
  case (2 n s i w)
  show ?case
  proof (cases "i < length (subscribers (signals w s))")
    case False
    then show ?thesis by simp
  next
    case True
    show ?thesis
    proof (cases "subscribers (signals w s) ! i")
      case None
      with True 2(1) show ?thesis by simp
    next
      case (Some fn)
      show ?thesis
      proof (cases "call_fn n fn (get s w) w")
        case (Done w1)
        with True Some 2(2) [OF True Some] 2(3) [OF True Some Done] show ?thesis
          by simp
      next
        case (Threw e w1)
        with True Some 2(2) [OF True Some] show ?thesis
          by simp
      next
        case OutOfFuel
        with True Some show ?thesis by simp
      qed
    qed
  qed
next
  case (3 n s w)
  then show ?case
    by (cases "forEach_subs n s 0 w") simp_all
next
  case (5 n s f w)
  then show ?case
    by (cases "f (get s w)") simp_all
next
  case (7 n c k v w)
  then show ?case
    by (cases "computeFns w c (\<lambda>s. get s w)") simp_all
next
  case (14 n a as w)
  then show ?case
    by (cases "run_action n a w") simp_all
qed simp_all

lemma fuel_mono:
  assumes "n \<le> m"
  shows "forEach_subs n s i w \<noteq> OutOfFuel \<Longrightarrow> forEach_subs m s i w = forEach_subs n s i w"
    and "notify n s w \<noteq> OutOfFuel \<Longrightarrow> notify m s w = notify n s w"
    and "set_sig n s v w \<noteq> OutOfFuel \<Longrightarrow> set_sig m s v w = set_sig n s v w"
    and "update n s f w \<noteq> OutOfFuel \<Longrightarrow> update m s f w = update n s f w"
    and "call_fn n fn v w \<noteq> OutOfFuel \<Longrightarrow> call_fn m fn v w = call_fn n fn v w"
    and "run_body n as w \<noteq> OutOfFuel \<Longrightarrow> run_body m as w = run_body n as w"
  using assms
proof (induction m)
  case 0
  { case 1 then show ?case by simp }
  { case 2 then show ?case by simp }
  { case 3 then show ?case by simp }
  { case 4 then show ?case by simp }
  { case 5 then show ?case by simp }
  { case 6 then show ?case by simp }
next
  case (Suc m)
  { case 1 then show ?case using Suc(1) fuel_Suc(1) [of m s i w] by (cases "n = Suc m") (simp_all del: forEach_subs.simps) }
  { case 2 then show ?case using Suc(2) fuel_Suc(2) [of m s w] by (cases "n = Suc m") (simp_all del: notify_eq) }
  { case 3 then show ?case using Suc(3) fuel_Suc(3) [of m s v w] by (cases "n = Suc m") (simp_all del: set_sig.simps) }
  { case 4 then show ?case using Suc(4) fuel_Suc(4) [of m s f w] by (cases "n = Suc m") (simp_all del: update.simps) }
  { case 5 then show ?case using Suc(5) fuel_Suc(5) [of m fn v w] by (cases "n = Suc m") (simp_all del: call_fn.simps) }
  { case 6 then show ?case using Suc(6) fuel_Suc(7) [of m as w] by (cases "n = Suc m") (simp_all del: run_body.simps) }
qed


section \<open>Passes over observers\<close>

lemma record_events_fields [simp]:
  "signals (record_events evs w) = signals w"
  "get t (record_events evs w) = get t w"
  "funs (record_events evs w) = funs w"
  "computeFns (record_events evs w) = computeFns w"
  "calls (record_events evs w) = calls w @ evs"
  "elements (record_events evs w) = elements w"
  "next_signal (record_events evs w) = next_signal w"
  "document (record_events evs w) = document w"
  "querySelectorAll_other (record_events evs w) = querySelectorAll_other w"
  by (simp_all add: record_events_def get_def)

lemma record_events_Nil [simp]: "record_events [] w = w"
  by (simp add: record_events_def)

lemma record_events_Cons: "record_events (ev # evs) w = record_events evs (record_event ev w)"
  by (simp add: record_events_def record_event_def)

lemma observer_steps [simp]:
  "observer (record_event ev w) fn = observer w fn"
  "observer (record_events evs w) fn = observer w fn"
  "observer (assign s v w) fn = observer w fn"
  "observer (subscribe s g w) fn = observer w fn"
  "observer (unsubscribe s g w) fn = observer w fn"
  "observer (paint s w) fn = observer w fn"
  by (cases fn; simp)+

lemma call_observer:
  "observer w fn \<Longrightarrow> call_fn n fn v w = Done (record_event (Call fn v) w)"
  by (cases fn) simp_all

text \<open>A run of \<open>k\<close> entries that are empty or observers: the loop passes them, recording the calls.\<close>

lemma forEach_observers_prefix:
  assumes "i + k \<le> length (subscribers (signals w s))"
    and "\<forall>g. Some g \<in> set (take k (drop i (subscribers (signals w s)))) \<longrightarrow> observer w g"
  shows "forEach_subs (k + m) s i w =
         forEach_subs m s (i + k)
           (record_events (map (\<lambda>g. Call g (get s w)) (live (take k (drop i (subscribers (signals w s)))))) w)"
  using assms
proof (induction k arbitrary: i w)
  case 0
  then show ?case by simp
next
  case (Suc k)
  let ?es = "subscribers (signals w s)"
  from Suc.prems(1) have i: "i < length ?es" by simp
  then have dr: "drop i ?es = ?es ! i # drop (Suc i) ?es"
    by (simp add: Cons_nth_drop_Suc)
  show ?case
  proof (cases "?es ! i")
    case None
    have "forEach_subs (Suc k + m) s i w = forEach_subs (k + m) s (Suc i) w"
      using i None by simp
    also have "\<dots> = forEach_subs m s (Suc i + k)
           (record_events (map (\<lambda>g. Call g (get s w)) (live (take k (drop (Suc i) ?es)))) w)"
      using Suc.prems by (intro Suc.IH) (simp_all add: dr)
    finally show ?thesis
      by (simp add: dr None)
  next
    case (Some fn)
    let ?w1 = "record_event (Call fn (get s w)) w"
    from Suc.prems(2) Some have obs: "observer w fn"
      by (simp add: dr)
    have "forEach_subs (Suc k + m) s i w = forEach_subs (k + m) s (Suc i) ?w1"
      using i Some call_observer [OF obs] by simp
    also have "\<dots> = forEach_subs m s (Suc i + k)
           (record_events (map (\<lambda>g. Call g (get s ?w1)) (live (take k (drop (Suc i) (subscribers (signals ?w1 s)))))) ?w1)"
      using Suc.prems by (intro Suc.IH) (simp_all add: dr)
    finally show ?thesis
      by (simp add: dr Some record_events_Cons)
  qed
qed

lemma forEach_observers:
  assumes "\<forall>g. Some g \<in> set (drop i (subscribers (signals w s))) \<longrightarrow> observer w g"
    and "length (subscribers (signals w s)) - i \<le> n"
  shows "forEach_subs n s i w =
         Done (record_events (map (\<lambda>g. Call g (get s w)) (live (drop i (subscribers (signals w s))))) w)"
proof (cases "i \<le> length (subscribers (signals w s))")
  case True
  define k where "k = length (subscribers (signals w s)) - i"
  define m where "m = n - k"
  have n: "n = k + m" using assms(2) by (simp add: k_def m_def)
  have ik: "i + k = length (subscribers (signals w s))" using True by (simp add: k_def)
  have tk: "take k (drop i (subscribers (signals w s))) = drop i (subscribers (signals w s))"
    by (simp add: k_def)
  show ?thesis
    unfolding n
    using forEach_observers_prefix [of i k w s m] assms(1) ik
    by (simp add: tk forEach_subs_end)
next
  case False
  then show ?thesis by (simp add: forEach_subs_end)
qed

lemma writable_record_events [simp]: "writable s (record_events evs w) = writable s w"
  by (simp add: writable_def)

lemma notify_observers:
  assumes "\<forall>g. Some g \<in> set (subscribers (signals w s)) \<longrightarrow> observer w g"
    and "length (subscribers (signals w s)) \<le> n"
  shows "notify n s w =
         (if writable s w
          then Done (paint s
                 (record_events (map (\<lambda>g. Call g (get s w)) (live (subscribers (signals w s)))) w))
          else Threw (conversion_error (get s w))
                 (record_events (map (\<lambda>g. Call g (get s w)) (live (subscribers (signals w s)))) w))"
  using forEach_observers [of 0 w s n] assms by simp

lemma update_as_set: "f (get s w) = Inr v \<Longrightarrow> update n s f w = set_sig n s v w"
  by simp

lemma counter_fields [simp]:
  "signals (counter bodies) 0 =
     \<lparr>sig_value = Num 0, subscribers = [Some (Fn 0), Some (Fn 1), Some (Fn 2)],
      readers = [0], checkers = [1]\<rparr>"
  "get 0 (counter bodies) = Num 0"
  "funs (counter bodies) = bodies"
  "calls (counter bodies) = []"
  "innerText (elements (counter bodies) e) = (if e = 0 then ''0'' else [])"
  "classList (elements (counter bodies) e) = []"
  "computeFns (counter bodies) c = (\<lambda>view. Inr Undefined)"
  "next_signal (counter bodies) = 1"
  "querySelectorAll_other (counter bodies) selector = Inl SyntaxError"
  by (simp_all add: counter_def get_def)

lemma numeral_3: "(3::nat) = Suc (Suc (Suc 0))"
  by simp

lemma decimal_digit: "n < 10 \<Longrightarrow> decimal n = [digit_char n]"
  by (simp add: decimal.simps)

lemma decimal_small [simp]:
  "decimal 0 = ''0''" "decimal 1 = ''1''" "decimal (Suc 0) = ''1''" "decimal 7 = ''7''"
  by (simp_all add: decimal_digit digit_char_def)

lemma to_string_small:
  "\<bar>i\<bar> < 2 ^ 53 \<Longrightarrow>
     to_string (Num i) = Inr (if i < 0 then CHR ''-'' # decimal (nat (- i)) else decimal (nat i))"
  by (simp add: number_to_string_def)

lemma printable_simps [simp]:
  "printable Undefined" "printable Null" "printable (Bool b)" "printable (Num i)" "printable NaN"
  "printable (Str text)" "\<not> printable (Symbol y)"
  "printable (Obj r (Inr text))" "\<not> printable (Obj r (Inl e))"
  by (simp_all add: printable_def)

lemma text_of_simps [simp]:
  "text_of (Str text) = text" "text_of (Num 0) = ''0''" "text_of (Num 1) = ''1''"
  "text_of (Num 7) = ''7''"
  by (simp_all add: text_of_def number_to_string_def)

text \<open>The example world is what construction and three subscriptions make of the page.\<close>

lemma counter_built:
  "and_then (snd (createSignal 0 ''count'' (Num 0) (page\<lparr>funs := bodies\<rparr>)))
     (\<lambda>w. Done (subscribe 0 (Fn 2) (subscribe 0 (Fn 1) (subscribe 0 (Fn 0) w)))) =
   Done (counter bodies)"
proof -
  have q: "querySelectorAll_read ''count'' (page\<lparr>funs := bodies\<rparr>) = Inr [0]"
    "querySelectorAll_checker ''count'' (page\<lparr>funs := bodies\<rparr>) = Inr [1]"
    by (simp_all add: querySelectorAll_read_def querySelectorAll_checker_def)
  have c: "snd (createSignal 0 ''count'' (Num 0) (page\<lparr>funs := bodies\<rparr>)) =
      Done (paint 0 (new_signal [0] [1] (Num 0) (page\<lparr>funs := bodies\<rparr>)))"
    using createSignal_eq [OF q, of 0 "Num 0"] by simp
  have "subscribe 0 (Fn 2) (subscribe 0 (Fn 1) (subscribe 0 (Fn 0)
          (paint 0 (new_signal [0] [1] (Num 0) (page\<lparr>funs := bodies\<rparr>))))) = counter bodies"
    by (simp add: counter_def subscribe_def paint_def new_signal_def put_text_def
        write_checker_def page_def Set_add_def fun_eq_iff get_def classList_toggle_def)
  with c show ?thesis
    by simp
qed

section \<open>Passes over unsubscribing callbacks\<close>

lemma only_removed_refl [simp]: "only_removed w w"
  by (simp add: only_removed_def)









lemma unsubscriber_assign [simp]: "unsubscriber (assign s v w) g = unsubscriber w g"
  by (cases g) simp_all

section \<open>Signals that only the caller writes\<close>

lemma no_writer_steps [simp]:
  "no_writer s (assign t v w) = no_writer s w"
  "no_writer s (record_event ev w) = no_writer s w"
  "no_writer s (paint t w) = no_writer s w"
  by (simp_all add: no_writer_def)

lemma set_Set_add: "set (Set_add x es) = insert (Some x) (set es)"
  by (auto simp: Set_add_def)

lemma no_writer_subscribe: "no_writer s w \<Longrightarrow> no_writer s (subscribe t (Fn f) w)"
  by (auto simp: no_writer_def set_Set_add)

lemma in_Set_delete: "Some x \<in> set (Set_delete y es) \<Longrightarrow> Some x \<in> set es"
  using set_Set_delete [of y es] by auto

lemma no_writer_unsubscribe: "no_writer s w \<Longrightarrow> no_writer s (unsubscribe t fn w)"
  by (auto simp: no_writer_def dest: in_Set_delete)

lemma run_no_writer:
  "no_writer s w \<longrightarrow>
     (\<forall>w'. final (forEach_subs n t i w) = Some w' \<longrightarrow> no_writer s w' \<and> get s w' = get s w)"
  "no_writer s w \<longrightarrow>
     (\<forall>w'. final (notify n t w) = Some w' \<longrightarrow> no_writer s w' \<and> get s w' = get s w)"
  "t \<noteq> s \<longrightarrow> no_writer s w \<longrightarrow>
     (\<forall>w'. final (set_sig n t v w) = Some w' \<longrightarrow> no_writer s w' \<and> get s w' = get s w)"
  "t \<noteq> s \<longrightarrow> no_writer s w \<longrightarrow>
     (\<forall>w'. final (update n t f w) = Some w' \<longrightarrow> no_writer s w' \<and> get s w' = get s w)"
  "(\<forall>k. fn \<noteq> Recompute s k) \<longrightarrow> no_writer s w \<longrightarrow>
     (\<forall>w'. final (call_fn n fn v w) = Some w' \<longrightarrow> no_writer s w' \<and> get s w' = get s w)"
  "\<not> writes s a \<longrightarrow> no_writer s w \<longrightarrow>
     (\<forall>w'. final (run_action n a w) = Some w' \<longrightarrow> no_writer s w' \<and> get s w' = get s w)"
  "(\<forall>a\<in>set as. \<not> writes s a) \<longrightarrow> no_writer s w \<longrightarrow>
     (\<forall>w'. final (run_body n as w) = Some w' \<longrightarrow> no_writer s w' \<and> get s w' = get s w)"
proof (induct n t i w and n t w and n t v w and n t f w and n fn v w and n a w and n as w
      rule: forEach_subs_notify_set_sig_update_call_fn_run_action_run_body.induct)
  case (1 t i w)
  then show ?case by (simp split: if_splits)
next
  case (2 n t i w)
  show ?case
  proof (intro impI allI)
    fix w' assume nw: "no_writer s w" and fin: "final (forEach_subs (Suc n) t i w) = Some w'"
    show "no_writer s w' \<and> get s w' = get s w"
    proof (cases "i < length (subscribers (signals w t))")
      case False
      with fin nw show ?thesis by simp
    next
      case True
      show ?thesis
      proof (cases "subscribers (signals w t) ! i")
        case None
        with True fin nw 2(1) show ?thesis by simp
      next
        case (Some fn)
        from True Some have "Some fn \<in> set (subscribers (signals w t))"
          by (metis nth_mem)
        with nw have nr: "\<forall>k. fn \<noteq> Recompute s k"
          by (auto simp: no_writer_def)
        show ?thesis
        proof (cases "call_fn n fn (get t w) w")
          case (Done w1)
          with 2(2) [OF True Some] nr nw have "no_writer s w1 \<and> get s w1 = get s w"
            by simp
          with 2(3) [OF True Some Done] fin True Some Done show ?thesis
            by simp
        next
          case (Threw e w1)
          with 2(2) [OF True Some] nr nw fin True Some show ?thesis
            by simp
        next
          case OutOfFuel
          with fin True Some show ?thesis by simp
        qed
      qed
    qed
  qed
next
  case (3 n t w)
  then show ?case
    by (cases "forEach_subs n t 0 w") simp_all
next
  case (4 n t newValue w)
  then show ?case by simp
next
  case (5 n t f w)
  then show ?case
    by (cases "f (get t w)") simp_all
next
  case (6 n f v w)
  show ?case
  proof (intro impI allI)
    fix w' assume nw: "no_writer s w" and fin: "final (call_fn n (Fn f) v w) = Some w'"
    from nw have "\<forall>a\<in>set (funs w f v). \<not> writes s a"
      unfolding no_writer_def by blast
    with 6 nw fin show "no_writer s w' \<and> get s w' = get s w"
      by simp
  qed
next
  case (7 n c k v w)
  then show ?case
    by (cases "computeFns w c (\<lambda>s. get s w)") simp_all
next
  case (10 n t f w)
  show ?case
  proof (intro impI allI)
    fix w' assume nw: "no_writer s w" and "final (run_action n (Subscribe t f) w) = Some w'"
    then have "w' = subscribe t (Fn f) w" by simp
    with nw show "no_writer s w' \<and> get s w' = get s w"
      using no_writer_subscribe [of s w t f] by simp
  qed
next
  case (11 n t f w)
  show ?case
  proof (intro impI allI)
    fix w' assume nw: "no_writer s w" and "final (run_action n (Unsubscribe t f) w) = Some w'"
    then have "w' = unsubscribe t (Fn f) w" by simp
    with nw show "no_writer s w' \<and> get s w' = get s w"
      using no_writer_unsubscribe [of s w t "Fn f"] by simp
  qed
next
  case (14 n a as w)
  show ?case
  proof (intro impI allI)
    fix w' assume nwr: "\<forall>b\<in>set (a # as). \<not> writes s b" and nw: "no_writer s w"
      and fin: "final (run_body n (a # as) w) = Some w'"
    from nwr have a: "\<not> writes s a" and as: "\<forall>b\<in>set as. \<not> writes s b"
      by simp_all
    show "no_writer s w' \<and> get s w' = get s w"
    proof (cases "run_action n a w")
      case (Done w1)
      with 14(1) a nw have "no_writer s w1 \<and> get s w1 = get s w"
        by simp
      with 14(2) [OF Done] as fin Done show ?thesis
        by simp
    next
      case (Threw e w1)
      with 14(1) a nw fin show ?thesis
        by simp
    next
      case OutOfFuel
      with fin show ?thesis by simp
    qed
  qed
qed simp_all

lemma perform_no_writer:
  assumes "no_writer s w" and "final (perform n s c w) = Some w'"
  shows "no_writer s w' \<and> get s w' = written (get s w) c"
proof (cases c)
  case (SetCall v)
  with assms run_no_writer(2) [of s "assign s v w" n s] show ?thesis
    by simp
next
  case (UpdateCall f)
  show ?thesis
  proof (cases "f (get s w)")
    case (Inl e)
    with assms UpdateCall show ?thesis by simp
  next
    case (Inr x)
    with assms UpdateCall run_no_writer(2) [of s "assign s x w" n s] show ?thesis
      by simp
  qed
qed

lemma counter_subscribers:
  "subscribers (signals (counter bodies) t) =
     (if t = 0 then [Some (Fn 0), Some (Fn 1), Some (Fn 2)] else [])"
  by (simp add: counter_def)

section \<open>Computed signals\<close>

text \<open>
  The recomputing closures are never removed (nobody holds their unsubscribe handles), so
  a pass over a dependency reaches one; once it has run, the computed value is up to
  date, and what runs afterwards either leaves the values alone or ends up to date
  again.
\<close>

lemma keeps_closures_refl [simp]: "keeps_closures w w"
  by (simp add: keeps_closures_def)


lemma keeps_closures_same:
  "(\<And>t. subscribers (signals w' t) = subscribers (signals w t)) \<Longrightarrow> keeps_closures w w'"
  by (simp add: keeps_closures_def)









lemma same_values_refl [simp]: "same_values c deps w w"
  by (simp add: same_values_def)


lemma same_values_steps [simp]:
  "same_values c deps w (record_event ev w)"
  "same_values c deps w (paint s w)"
  "same_values c deps w (subscribe s fn w)"
  "same_values c deps w (unsubscribe s fn w)"
  by (simp_all add: same_values_def)


lemma computed_inv_steps [simp]:
  "computed_inv c f deps (assign t v w) = computed_inv c f deps w"
  "computed_inv c f deps (record_event ev w) = computed_inv c f deps w"
  "computed_inv c f deps (paint t w) = computed_inv c f deps w"
  by (simp_all add: computed_inv_def)

lemma up_to_date_steps [simp]:
  "up_to_date c (record_event ev w) = up_to_date c w"
  "up_to_date c (paint t w) = up_to_date c w"
  by (simp_all add: up_to_date_def)






lemma subscribe_deps_fields [simp]:
  "get t (subscribe_deps c k deps w) = get t w"
  "readers (signals (subscribe_deps c k deps w) t) = readers (signals w t)"
  "checkers (signals (subscribe_deps c k deps w) t) = checkers (signals w t)"
  "funs (subscribe_deps c k deps w) = funs w"
  "computeFns (subscribe_deps c k deps w) = computeFns w"
  "calls (subscribe_deps c k deps w) = calls w"
  "elements (subscribe_deps c k deps w) = elements w"
  "next_signal (subscribe_deps c k deps w) = next_signal w"
  "document (subscribe_deps c k deps w) = document w"
  "querySelectorAll_other (subscribe_deps c k deps w) = querySelectorAll_other w"
  by (induction deps arbitrary: k w; simp)+



lemma get_computeFns_update [simp]: "get t (w\<lparr>computeFns := F\<rparr>) = get t w"
  by (simp add: get_def)

lemma query_frame [simp]:
  "querySelectorAll_read name (record_event ev w) = querySelectorAll_read name w"
  "querySelectorAll_checker name (record_event ev w) = querySelectorAll_checker name w"
  "querySelectorAll_read name (w\<lparr>computeFns := F\<rparr>) = querySelectorAll_read name w"
  "querySelectorAll_checker name (w\<lparr>computeFns := F\<rparr>) = querySelectorAll_checker name w"
  by (simp_all add: querySelectorAll_read_def querySelectorAll_checker_def)




lemma numeral_2: "(2::nat) = Suc (Suc 0)"
  by simp


section \<open>A pass that reaches a recomputing closure\<close>

lemma observer_computeFns_update [simp]:
  "observer (w\<lparr>computeFns := F\<rparr>) h = observer w h"
  by (cases h) simp_all

lemma observer_new_signal [simp]: "observer (new_signal rs cs v w) h = observer w h"
  by (cases h) simp_all

lemma observer_subscribe_deps [simp]: "observer (subscribe_deps c k deps w) h = observer w h"
  by (cases h) simp_all


lemma count_Compute_calls [simp]: "count_list (map (\<lambda>h. Call h v) hs) (Compute c) = 0"
  by (induction hs) simp_all


lemma two_signals_fields [simp]:
  "next_signal two_signals = 2" "subscribers (signals two_signals s) = []"
  "get s two_signals = (if s < 2 then Num 0 else Undefined)"
  "funs two_signals f v = []" "calls two_signals = []"
  "readers (signals two_signals s) = []" "document two_signals = []"
  by (simp_all add: two_signals_def get_def)

section \<open>Where an exception comes from; sequences of calls over observers\<close>

lemma forEach_Threw_origin:
  "forEach_subs n s i w = Threw e w' \<Longrightarrow>
   \<exists>j k u fn. j < length (subscribers (signals u s)) \<and> subscribers (signals u s) ! j = Some fn \<and>
      call_fn k fn (get s u) u = Threw e w'"
proof (induction n arbitrary: i w)
  case 0
  then show ?case by (simp split: if_splits)
next
  case (Suc n)
  let ?es = "subscribers (signals w s)"
  from Suc.prems have i: "i < length ?es"
    by (simp split: if_splits)
  show ?case
  proof (cases "?es ! i")
    case None
    with Suc.prems i have "forEach_subs n s (Suc i) w = Threw e w'" by simp
    then show ?thesis by (rule Suc.IH)
  next
    case (Some fn)
    show ?thesis
    proof (cases "call_fn n fn (get s w) w")
      case (Done w1)
      with Suc.prems i Some have "forEach_subs n s (Suc i) w1 = Threw e w'" by simp
      then show ?thesis by (rule Suc.IH)
    next
      case (Threw e1 w1)
      with Suc.prems i Some have "e1 = e" "w1 = w'" by simp_all
      with Threw i Some show ?thesis by blast
    next
      case OutOfFuel
      with Suc.prems i Some show ?thesis by simp
    qed
  qed
qed

lemma set_Threw_origin:
  assumes "set_sig n s v w = Threw e w'"
  shows "(\<exists>j k u fn. j < length (subscribers (signals u s)) \<and> subscribers (signals u s) ! j = Some fn \<and>
      call_fn k fn (get s u) u = Threw e w') \<or>
    (forEach_subs n s 0 (assign s v w) = Done w' \<and> to_string (get s w') = Inl e)"
proof (cases "forEach_subs n s 0 (assign s v w)")
  case (Done w1)
  with assms have "\<not> writable s w1" "e = conversion_error (get s w1)" "w' = w1"
    by (auto split: if_splits)
  then show ?thesis
    using Done printable_cases(2) [of "get s w1"] by (simp add: writable_def)
next
  case (Threw e1 w1)
  with assms have "forEach_subs n s 0 (assign s v w) = Threw e w'"
    by simp
  then show ?thesis
    using forEach_Threw_origin by blast
next
  case OutOfFuel
  with assms show ?thesis by simp
qed

lemma perform_observers:
  assumes "\<forall>g. Some g \<in> set (subscribers (signals w s)) \<longrightarrow> observer w g"
    and "length (subscribers (signals w s)) \<le> n"
  shows "\<exists>w'. final (perform n s c w) = Some w' \<and>
           subscribers (signals w' s) = subscribers (signals w s) \<and> funs w' = funs w"
proof -
  have set: "\<exists>w'. final (notify n s (assign s x w)) = Some w' \<and>
           subscribers (signals w' s) = subscribers (signals w s) \<and> funs w' = funs w" for x
    using notify_observers [of "assign s x w" s n] assms by (simp del: notify_eq)
  show ?thesis
  proof (cases c)
    case (SetCall x)
    with set [of x] show ?thesis by simp
  next
    case (UpdateCall f)
    show ?thesis
    proof (cases "f (get s w)")
      case (Inl e)
      with UpdateCall show ?thesis by simp
    next
      case (Inr x)
      with UpdateCall set [of x] show ?thesis by simp
    qed
  qed
qed

lemma perform_all_observers:
  assumes "\<forall>g. Some g \<in> set (subscribers (signals w s)) \<longrightarrow> observer w g"
    and "length (subscribers (signals w s)) \<le> n"
  shows "\<exists>w'. perform_all n s cs w = Some w'"
  using assms
proof (induction cs arbitrary: w)
  case Nil
  then show ?case by simp
next
  case (Cons c cs)
  from perform_observers [OF Cons.prems, of c]
  obtain w1 where w1: "final (perform n s c w) = Some w1"
    "subscribers (signals w1 s) = subscribers (signals w s)" "funs w1 = funs w"
    by blast
  have "\<forall>g. Some g \<in> set (subscribers (signals w1 s)) \<longrightarrow> observer w1 g"
  proof (intro allI impI)
    fix g assume "Some g \<in> set (subscribers (signals w1 s))"
    with Cons.prems(1) w1(2) have "observer w g" by simp
    with w1(3) show "observer w1 g" by (cases g) simp_all
  qed
  moreover have "length (subscribers (signals w1 s)) \<le> n"
    using Cons.prems(2) w1(2) by simp
  ultimately have "\<exists>w'. perform_all n s cs w1 = Some w'"
    by (rule Cons.IH)
  with w1(1) show ?case by simp
qed


section \<open>Passes over steady subscribers\<close>

lemma same_shape_refl [simp]: "same_shape w w"
  by (simp add: same_shape_def)

lemma same_shape_trans: "same_shape w w1 \<Longrightarrow> same_shape w1 w2 \<Longrightarrow> same_shape w w2"
  by (simp add: same_shape_def)

lemma same_shape_steps [simp]:
  "same_shape w (assign s v w)"
  "same_shape w (record_event ev w)"
  "same_shape w (record_events evs w)"
  "same_shape w (paint s w)"
  by (simp_all add: same_shape_def)

lemma observer_same_shape: "same_shape w w' \<Longrightarrow> observer w' g = observer w g"
  by (cases g) (simp_all add: same_shape_def)

lemma steady_same_shape:
  assumes "same_shape w w'"
  shows "steady w' g = steady w g"
proof (cases g)
  case (Fn f)
  with assms show ?thesis by (simp add: same_shape_def)
next
  case (Recompute c k)
  from assms have "computeFns w' = computeFns w" "readers (signals w' c) = readers (signals w c)"
    "subscribers (signals w' c) = subscribers (signals w c)"
    by (simp_all add: same_shape_def)
  with Recompute observer_same_shape [OF assms] show ?thesis
    by simp
qed

lemma call_steady:
  assumes "steady w fn"
    and "\<forall>c k. fn = Recompute c k \<longrightarrow> length (subscribers (signals w c)) \<le> n"
  shows "\<exists>w'. call_fn n fn v w = Done w' \<and> same_shape w w' \<and>
           (\<forall>t. (\<forall>k. fn \<noteq> Recompute t k) \<longrightarrow> get t w' = get t w)"
proof (cases fn)
  case (Fn f)
  with assms(1) show ?thesis by simp
next
  case (Recompute c k)
  let ?w0 = "record_event (Compute c) (record_event (Call (Recompute c k) v) w)"
  from assms(1) Recompute have "\<exists>x. computeFns w c (\<lambda>s. get s w) = Inr x \<and>
      (readers (signals w c) = [] \<or> printable x)"
    and obs: "\<forall>h. Some h \<in> set (subscribers (signals w c)) \<longrightarrow> observer w h"
    by simp_all
  then obtain x where x: "computeFns w c (\<lambda>s. get s w) = Inr x"
    and p: "readers (signals w c) = [] \<or> printable x"
    by blast
  let ?w1 = "assign c x ?w0"
  let ?w2 = "paint c (record_events (map (\<lambda>g. Call g (get c ?w1)) (live (subscribers (signals ?w1 c)))) ?w1)"
  have obs1: "\<forall>h. Some h \<in> set (subscribers (signals ?w1 c)) \<longrightarrow> observer ?w1 h"
    using obs by simp
  have len: "length (subscribers (signals ?w1 c)) \<le> n"
    using assms(2) Recompute by simp
  have "notify n c ?w1 = Done ?w2"
    using notify_observers [OF obs1 len] p by (simp add: writable_assign del: notify_eq)
  then have "call_fn n fn v w = Done ?w2"
    using x Recompute by (simp del: notify_eq)
  moreover have "same_shape w ?w2"
    by (simp add: same_shape_def)
  moreover have "\<forall>t. (\<forall>k. fn \<noteq> Recompute t k) \<longrightarrow> get t ?w2 = get t w"
    using Recompute by simp
  ultimately show ?thesis by blast
qed

lemma forEach_steady:
  assumes "\<forall>g. Some g \<in> set (subscribers (signals w s)) \<longrightarrow> steady w g"
    and "\<forall>c k. Some (Recompute c k) \<in> set (subscribers (signals w s)) \<longrightarrow>
           length (subscribers (signals w c)) \<le> M"
    and "length (subscribers (signals w s)) - i + M \<le> n"
  shows "\<exists>w'. forEach_subs n s i w = Done w' \<and> same_shape w w' \<and> get s w' = get s w"
  using assms
proof (induction n arbitrary: i w)
  case 0
  then have "forEach_subs 0 s i w = Done w"
    by (simp add: forEach_subs_end)
  then show ?case by simp
next
  case (Suc n)
  let ?es = "subscribers (signals w s)"
  show ?case
  proof (cases "i < length ?es")
    case False
    then have "forEach_subs (Suc n) s i w = Done w" by simp
    then show ?thesis by simp
  next
    case True
    have step: "\<exists>w'. forEach_subs n s (Suc i) w1 = Done w' \<and> same_shape w1 w' \<and> get s w' = get s w1"
      if sh: "same_shape w w1" for w1
    proof (intro Suc.IH)
      from sh have subs: "\<And>t. subscribers (signals w1 t) = subscribers (signals w t)"
        by (simp add: same_shape_def)
      show "\<forall>g. Some g \<in> set (subscribers (signals w1 s)) \<longrightarrow> steady w1 g"
        using Suc.prems(1) steady_same_shape [OF sh] by (simp add: subs)
      show "\<forall>c k. Some (Recompute c k) \<in> set (subscribers (signals w1 s)) \<longrightarrow>
           length (subscribers (signals w1 c)) \<le> M"
        using Suc.prems(2) by (simp add: subs)
      show "length (subscribers (signals w1 s)) - Suc i + M \<le> n"
        using Suc.prems(3) True by (simp add: subs)
    qed
    show ?thesis
    proof (cases "?es ! i")
      case None
      from step [of w] obtain w' where "forEach_subs n s (Suc i) w = Done w'" "same_shape w w'"
        "get s w' = get s w"
        by auto
      then show ?thesis
        using True None by simp
    next
      case (Some fn)
      from True Some have mem: "Some fn \<in> set ?es"
        by (metis nth_mem)
      with Suc.prems(1) have st: "steady w fn" by blast
      have nots: "\<forall>k. fn \<noteq> Recompute s k"
      proof (intro allI notI)
        fix k assume fn: "fn = Recompute s k"
        with st have "\<forall>h. Some h \<in> set ?es \<longrightarrow> observer w h" by simp
        with mem fn have "observer w (Recompute s k)" by blast
        then show False by simp
      qed
      have bound: "\<forall>c k. fn = Recompute c k \<longrightarrow> length (subscribers (signals w c)) \<le> n"
        using Suc.prems(2,3) mem True by fastforce
      from call_steady [OF st bound, of "get s w"]
      obtain w1 where w1: "call_fn n fn (get s w) w = Done w1" "same_shape w w1"
        "get s w1 = get s w"
        using nots by blast
      from step [OF w1(2)] obtain w' where w': "forEach_subs n s (Suc i) w1 = Done w'"
        "same_shape w1 w'" "get s w' = get s w1"
        by blast
      have "forEach_subs (Suc n) s i w = Done w'"
        using True Some w1(1) w'(1) by simp
      with same_shape_trans [OF w1(2) w'(2)] w1(3) w'(3) show ?thesis
        by simp
    qed
  qed
qed



section \<open>Visibility targets\<close>

text \<open>
  Claim C7, amended. For every signal and every bound visibility target: after
  construction, and after every \<^verbatim>\<open>set\<close> or \<^verbatim>\<open>update\<close> that returns, the target
  carries the class \<^verbatim>\<open>visible\<close> if and only if the current value is truthy.
  Construction returns for a plain name and a printable value; \<^verbatim>\<open>set\<close> and
  \<^verbatim>\<open>update\<close> return when the subscribers are observers and the display targets
  can be written. The values \<open>0\<close> and the empty string are falsy; the string
  \<^verbatim>\<open>"0"\<close> and \<open>-1\<close> are truthy.
\<close>

theorem visible_iff_truthy:
  "(\<forall>w'. createSignal n name v0 w = (c, Done w') \<longrightarrow>
      (\<forall>e\<in>set (checkers (signals w' c)).
         (''visible'' \<in> set (classList (elements w' e))) = truthy (get c w'))) \<and>
   (css_plain name \<and> printable v0 \<longrightarrow>
      (\<exists>w'. createSignal n name v0 w = (next_signal w, Done w') \<and> get (next_signal w) w' = v0 \<and>
         checkers (signals w' (next_signal w)) =
           filter (\<lambda>e. data_signal_checker (elements w e) = Some name) (document w))) \<and>
   (\<forall>w'. set_sig n s v w = Done w' \<longrightarrow>
      (\<forall>e\<in>set (checkers (signals w s)).
         (''visible'' \<in> set (classList (elements w' e))) = truthy (get s w'))) \<and>
   (\<forall>w'. update n s f w = Done w' \<longrightarrow>
      (\<forall>e\<in>set (checkers (signals w s)).
         (''visible'' \<in> set (classList (elements w' e))) = truthy (get s w'))) \<and>
   ((\<forall>g. Some g \<in> set (subscribers (signals w s)) \<longrightarrow> observer w g) \<and>
    length (subscribers (signals w s)) \<le> n \<and>
    (readers (signals w s) = [] \<or> printable v) \<longrightarrow>
      (\<exists>w'. set_sig n s v w = Done w') \<and>
      (f (get s w) = Inr v \<longrightarrow> (\<exists>w'. update n s f w = Done w'))) \<and>
   \<not> truthy (Num 0) \<and> \<not> truthy (Str '''') \<and> truthy (Str ''0'') \<and> truthy (Num (- 1))"
proof -
  have create: "\<forall>w'. createSignal n name v0 w = (c, Done w') \<longrightarrow>
      (\<forall>e\<in>set (checkers (signals w' c)).
         (''visible'' \<in> set (classList (elements w' e))) = truthy (get c w'))"
  proof (intro allI impI)
    fix w' assume "createSignal n name v0 w = (c, Done w')"
    from createSignal_DoneD [OF this] obtain rs cs where c: "c = next_signal w"
      and w': "w' = paint (next_signal w) (new_signal rs cs v0 w)"
      by blast
    show "\<forall>e\<in>set (checkers (signals w' c)).
         (''visible'' \<in> set (classList (elements w' e))) = truthy (get c w')"
      by (simp add: c w' paint_class)
  qed
  have returns: "\<exists>w'. createSignal n name v0 w = (next_signal w, Done w') \<and>
         get (next_signal w) w' = v0 \<and>
         checkers (signals w' (next_signal w)) =
           filter (\<lambda>e. data_signal_checker (elements w e) = Some name) (document w)"
    if "css_plain name \<and> printable v0"
  proof -
    from that have p: "css_plain name" "printable v0" by simp_all
    have "createSignal n name v0 w =
       (next_signal w,
        if filter (\<lambda>e. data_signal_read (elements w e) = Some name) (document w) = [] \<or> printable v0
        then Done (paint (next_signal w)
               (new_signal (filter (\<lambda>e. data_signal_read (elements w e) = Some name) (document w))
                  (filter (\<lambda>e. data_signal_checker (elements w e) = Some name) (document w)) v0 w))
        else Threw (conversion_error v0)
               (new_signal (filter (\<lambda>e. data_signal_read (elements w e) = Some name) (document w))
                  (filter (\<lambda>e. data_signal_checker (elements w e) = Some name) (document w)) v0 w))"
      by (rule createSignal_eq) (rule query_plain [OF p(1)])+
    with p(2) show ?thesis by simp
  qed
  have set: "\<forall>w'. set_sig n s v w = Done w' \<longrightarrow>
      (\<forall>e\<in>set (checkers (signals w s)).
         (''visible'' \<in> set (classList (elements w' e))) = truthy (get s w'))"
    using notify_Done_visible [of n s "assign s v w"] by (simp del: notify_eq)
  have upd: "\<forall>w'. update n s f w = Done w' \<longrightarrow>
      (\<forall>e\<in>set (checkers (signals w s)).
         (''visible'' \<in> set (classList (elements w' e))) = truthy (get s w'))"
  proof (cases "f (get s w)")
    case (Inl e)
    then show ?thesis by simp
  next
    case (Inr x)
    then show ?thesis
      using notify_Done_visible [of n s "assign s x w"] by (simp del: notify_eq)
  qed
  have ret: "(\<exists>w'. set_sig n s v w = Done w') \<and>
      (f (get s w) = Inr v \<longrightarrow> (\<exists>w'. update n s f w = Done w'))"
    if "(\<forall>g. Some g \<in> set (subscribers (signals w s)) \<longrightarrow> observer w g) \<and>
        length (subscribers (signals w s)) \<le> n \<and>
        (readers (signals w s) = [] \<or> printable v)"
  proof -
    have "\<exists>w'. notify n s (assign s v w) = Done w'"
      using notify_observers [of "assign s v w" s n] that
      by (simp add: writable_assign del: notify_eq)
    then show ?thesis
      by (auto simp del: notify_eq)
  qed
  from create returns set upd ret show ?thesis by simp
qed

text \<open>On the example page: created with \<open>0\<close> the flag is absent; after \<^verbatim>\<open>set("0")\<close>
  present; after \<^verbatim>\<open>set("")\<close> absent; after an update to \<open>-1\<close> present; after
  \<^verbatim>\<open>set(0)\<close> absent again.\<close>

theorem visible_iff_truthy_witness:
  "\<exists>w1 w2 w3 w4 w5.
     createSignal 0 ''count'' (Num 0) page = (0, Done w1) \<and>
     ''visible'' \<notin> set (classList (elements w1 1)) \<and>
     set_sig 0 0 (Str ''0'') w1 = Done w2 \<and> ''visible'' \<in> set (classList (elements w2 1)) \<and>
     set_sig 0 0 (Str '''') w2 = Done w3 \<and> ''visible'' \<notin> set (classList (elements w3 1)) \<and>
     update 0 0 (\<lambda>v. Inr (Num (- 1))) w3 = Done w4 \<and> ''visible'' \<in> set (classList (elements w4 1)) \<and>
     set_sig 0 0 (Num 0) w4 = Done w5 \<and> ''visible'' \<notin> set (classList (elements w5 1))"
proof -
  define w1 where "w1 = paint 0 (new_signal [0] [1] (Num 0) page)"
  define w2 where "w2 = paint 0 (assign 0 (Str ''0'') w1)"
  define w3 where "w3 = paint 0 (assign 0 (Str '''') w2)"
  define w4 where "w4 = paint 0 (assign 0 (Num (- 1)) w3)"
  define w5 where "w5 = paint 0 (assign 0 (Num 0) w4)"
  have c1: "createSignal 0 ''count'' (Num 0) page = (0, Done w1)"
    using createSignal_eq [of "''count''" page "[0]" "[1]" 0 "Num 0"] by (simp add: w1_def)
  have subs: "subscribers (signals w1 0) = []" "subscribers (signals w2 0) = []"
    "subscribers (signals w3 0) = []" "subscribers (signals w4 0) = []"
    by (simp_all add: w1_def w2_def w3_def w4_def)
  have chk: "checkers (signals w1 0) = [1]" "checkers (signals w2 0) = [1]"
    "checkers (signals w3 0) = [1]" "checkers (signals w4 0) = [1]"
    by (simp_all add: w1_def w2_def w3_def w4_def)
  have c2: "set_sig 0 0 (Str ''0'') w1 = Done w2"
    by (simp add: subs w2_def writable_assign)
  have c3: "set_sig 0 0 (Str '''') w2 = Done w3"
    by (simp add: subs w3_def writable_assign)
  have c4: "update 0 0 (\<lambda>v. Inr (Num (- 1))) w3 = Done w4"
    by (simp add: subs w4_def writable_assign)
  have c5: "set_sig 0 0 (Num 0) w4 = Done w5"
    by (simp add: subs w5_def writable_assign)
  have g: "get 0 w1 = Num 0" "get 0 w2 = Str ''0''" "get 0 w3 = Str ''''" "get 0 w4 = Num (- 1)"
    "get 0 w5 = Num 0"
    by (simp_all add: w1_def w2_def w3_def w4_def w5_def)
  have v1: "''visible'' \<notin> set (classList (elements w1 1))"
    using visible_iff_truthy [of 0 "''count''" "Num 0" page 0 0 Undefined "\<lambda>v. Inr v"] c1 chk g
    by simp
  have v2: "''visible'' \<in> set (classList (elements w2 1))"
    using visible_iff_truthy [of 0 "''count''" Undefined w1 0 0 "Str ''0''" "\<lambda>v. Inr v"] c2 chk g
    by simp
  have v3: "''visible'' \<notin> set (classList (elements w3 1))"
    using visible_iff_truthy [of 0 "''count''" Undefined w2 0 0 "Str ''''" "\<lambda>v. Inr v"] c3 chk g
    by simp
  have v4: "''visible'' \<in> set (classList (elements w4 1))"
    using visible_iff_truthy [of 0 "''count''" Undefined w3 0 0 Undefined "\<lambda>v. Inr (Num (- 1))"] c4 chk g
    by simp
  have v5: "''visible'' \<notin> set (classList (elements w5 1))"
    using visible_iff_truthy [of 0 "''count''" Undefined w4 0 0 "Num 0" "\<lambda>v. Inr v"] c5 chk g
    by simp
  from c1 c2 c3 c4 c5 v1 v2 v3 v4 v5 show ?thesis by blast
qed

text \<open>
  Claim C7 as it was stated fails for a call that raises: on the example world whose
  second subscriber throws, \<^verbatim>\<open>set(7)\<close> stores the truthy \<open>7\<close> and ends in the
  subscriber's exception before the visibility target is reached, which stays without
  the class.
\<close>

theorem visible_flag_stale_after_throw:
  "map_option (get 0) (final (set_sig 3 0 (Num 7) (counter second_throws))) = Some (Num 7) \<and>
   truthy (Num 7) \<and>
   map_option (classes_at 1) (final (set_sig 3 0 (Num 7) (counter second_throws))) = Some []"
  by (simp add: numeral_3 second_throws_def classes_at_def)

section \<open>An update whose function throws\<close>

text \<open>
  Claim C9. If the function passed to \<^verbatim>\<open>update\<close> throws on the current value, the
  exception reaches the caller and the world is left exactly as it was: the value that
  \<^verbatim>\<open>get\<close> returns, the record of callback invocations and every element are
  unchanged, so no subscriber ran and no target was written. The same holds for an
  update issued from inside a callback, and the operations that follow it there do not
  run.
\<close>

theorem update_throws:
  "f (get s w) = Inl e \<Longrightarrow>
     update n s f w = Threw e w \<and> run_action n (UpdateSig s f) w = Threw e w \<and>
     run_body n (UpdateSig s f # rest) w = Threw e w"
  by simp

text \<open>On the example world, with three observers, a display target and a visibility
  target: the update whose function throws leaves the world as it is, where an update
  whose function returns \<open>1\<close> invokes the three subscribers and writes both targets.\<close>

theorem update_throws_witness:
  "update 3 0 (\<lambda>v. Inl (Thrown (Str ''boom''))) (counter observers_only) =
     Threw (Thrown (Str ''boom'')) (counter observers_only) \<and>
   live (subscribers (signals (counter observers_only) 0)) = [Fn 0, Fn 1, Fn 2] \<and>
   readers (signals (counter observers_only) 0) = [0] \<and>
   checkers (signals (counter observers_only) 0) = [1] \<and>
   (\<exists>w'. update 3 0 (\<lambda>v. Inr (Num 1)) (counter observers_only) = Done w' \<and>
      calls w' = [Call (Fn 0) (Num 1), Call (Fn 1) (Num 1), Call (Fn 2) (Num 1)] \<and>
      innerText (elements w' 0) = ''1'' \<and> classList (elements w' 1) = [''visible''])"
proof -
  have "update 3 0 (\<lambda>v. Inl (Thrown (Str ''boom''))) (counter observers_only) =
     Threw (Thrown (Str ''boom'')) (counter observers_only)"
    using update_throws [of "\<lambda>v. Inl (Thrown (Str ''boom''))" 0 "counter observers_only"
        "Thrown (Str ''boom'')" 3 "[]"]
    by simp
  moreover have "\<exists>w'. update 3 0 (\<lambda>v. Inr (Num 1)) (counter observers_only) = Done w' \<and>
      calls w' = [Call (Fn 0) (Num 1), Call (Fn 1) (Num 1), Call (Fn 2) (Num 1)] \<and>
      innerText (elements w' 0) = ''1'' \<and> classList (elements w' 1) = [''visible'']"
    by (simp add: numeral_3 observers_only_def writable_assign paint_text paint_class
        classList_toggle_def)
  ultimately show ?thesis
    by simp
qed

section \<open>Equivalence of the two createSignal implementations\<close>

text \<open>
  Claim C10. The \<^verbatim>\<open>createSignal\<close> of src/t3s.js and the one of src/unnamed/part_000
  are observationally equivalent: construction, \<^verbatim>\<open>set\<close>, \<^verbatim>\<open>update\<close> and every
  sequence of signal operations (with whatever callbacks are subscribed) give the same
  outcome and the same world, hence the same stored values, the same callback
  invocations, the same display text and the same classes; and
  \<^verbatim>\<open>classList.toggle('visible', !!value)\<close> gives the class list that the
  add-or-remove branch gives, for every value.
\<close>

theorem createSignal_implementations_agree:
  "createSignal' n name v w = createSignal n name v w \<and>
   set_sig' n s v w = set_sig n s v w \<and>
   update' n s f w = update n s f w \<and>
   run_body' n script w = run_body n script w \<and>
   classList_toggle ''visible'' (truthy v) l =
     (if truthy v then classList_add ''visible'' l else classList_remove ''visible'' l)"
  by (simp only: createSignal'_def createSignal_def interp_eq classList_toggle_eq simp_thms)

section \<open>Unsubscribing during a pass\<close>



section \<open>An exception in a callback\<close>

text \<open>
  Claim C4. Nothing in the core catches an exception. If the callback at position \<open>i\<close>
  of the pass (any callback, a computed signal's recomputation included) raises \<open>e\<close>
  when it is invoked, the callbacks before it being observers, then \<^verbatim>\<open>set\<close> and
  \<^verbatim>\<open>update\<close> raise \<open>e\<close>, and the world they leave is exactly the one the raising
  callback left: no later subscriber was invoked and no display or visibility target
  was written. In any state of the subscriber loop, a callback that raises makes the
  loop raise the same exception with the same world; and whatever \<^verbatim>\<open>set\<close> raises
  is what an invocation of one of the signal's subscribers raised, the world being the
  one that invocation left, or what the conversion of the value to a string raised
  after the pass.
\<close>

theorem exception_aborts_pass:
  "(i < length (subscribers (signals w s)) \<and> subscribers (signals w s) ! i = Some fn \<and>
    (\<forall>g. Some g \<in> set (take i (subscribers (signals w s))) \<longrightarrow> observer w g) \<and>
    call_fn n fn v
      (record_events (map (\<lambda>g. Call g v) (live (take i (subscribers (signals w s)))))
         (assign s v w)) = Threw e w' \<and>
    Suc (i + n) \<le> m \<longrightarrow>
      set_sig m s v w = Threw e w' \<and> (f (get s w) = Inr v \<longrightarrow> update m s f w = Threw e w')) \<and>
   (i < length (subscribers (signals w s)) \<and> subscribers (signals w s) ! i = Some fn \<and>
    call_fn n fn (get s w) w = Threw e w' \<longrightarrow>
      forEach_subs (Suc n) s i w = Threw e w') \<and>
   (set_sig n s v w = Threw e w' \<longrightarrow>
      (\<exists>j k u fn. j < length (subscribers (signals u s)) \<and>
         subscribers (signals u s) ! j = Some fn \<and> call_fn k fn (get s u) u = Threw e w') \<or>
      (forEach_subs n s 0 (assign s v w) = Done w' \<and> to_string (get s w') = Inl e))"
proof (intro conjI impI)
  assume a: "i < length (subscribers (signals w s)) \<and> subscribers (signals w s) ! i = Some fn \<and>
    (\<forall>g. Some g \<in> set (take i (subscribers (signals w s))) \<longrightarrow> observer w g) \<and>
    call_fn n fn v
      (record_events (map (\<lambda>g. Call g v) (live (take i (subscribers (signals w s)))))
         (assign s v w)) = Threw e w' \<and>
    Suc (i + n) \<le> m"
  let ?w0 = "assign s v w"
  let ?wi = "record_events (map (\<lambda>g. Call g v) (live (take i (subscribers (signals w s))))) ?w0"
  have "forEach_subs (i + Suc n) s 0 ?w0 = forEach_subs (Suc n) s (0 + i) ?wi"
    using forEach_observers_prefix [of 0 i ?w0 s "Suc n"] a by simp
  also have "\<dots> = Threw e w'"
    using a by simp
  finally have "set_sig (Suc (i + n)) s v w = Threw e w'"
    by simp
  moreover from a have "Suc (i + n) \<le> m" by simp
  ultimately show set: "set_sig m s v w = Threw e w'"
    using fuel_mono(3) [of "Suc (i + n)" m s v w] by simp
  show "update m s f w = Threw e w'" if "f (get s w) = Inr v"
    using set that update_as_set [of f s w v m] by (simp del: set_sig.simps update.simps)
next
  assume "i < length (subscribers (signals w s)) \<and> subscribers (signals w s) ! i = Some fn \<and>
    call_fn n fn (get s w) w = Threw e w'"
  then show "forEach_subs (Suc n) s i w = Threw e w'"
    by simp
next
  assume "set_sig n s v w = Threw e w'"
  then show "(\<exists>j k u fn. j < length (subscribers (signals u s)) \<and>
         subscribers (signals u s) ! j = Some fn \<and> call_fn k fn (get s u) u = Threw e w') \<or>
      (forEach_subs n s 0 (assign s v w) = Done w' \<and> to_string (get s w') = Inl e)"
    by (rule set_Threw_origin)
qed

text \<open>The second of three callbacks throws: the first two are on record, the third is
  not, and the display and visibility targets keep what they had.\<close>

theorem exception_aborts_pass_witness:
  "\<exists>w'. set_sig 2 0 (Num 7) (counter second_throws) = Threw (Thrown (Str ''boom'')) w' \<and>
      get 0 w' = Num 7 \<and>
      calls w' = [Call (Fn 0) (Num 7), Call (Fn 1) (Num 7)] \<and>
      innerText (elements w' 0) = ''0'' \<and> classList (elements w' 1) = []"
  using exception_aborts_pass [of 1 "counter second_throws" 0 "Fn 1" 0 "Num 7"
      "Thrown (Str ''boom'')"
      "record_event (Call (Fn 1) (Num 7))
         (record_events [Call (Fn 0) (Num 7)] (assign 0 (Num 7) (counter second_throws)))"
      2 "\<lambda>v. Inr v"]
  by (simp add: second_throws_def)

section \<open>No equality check\<close>

text \<open>
  Claim C6, amended. \<^verbatim>\<open>set(newValue)\<close> stores the value and starts a full pass
  whatever the value held before, the same value included: the outcome of the call does
  not depend on the value held before. Whatever is subscribed, when the call returns,
  every display target has the string of the current value and every visibility target
  has the class according to its truthiness. With observers subscribed, every
  subscriber is invoked with the new value, in order; and when the display targets can
  be written (the value has a string, or there is no display target) the call returns,
  every display target has the value's string and every visibility target is toggled
  to the value's truthiness.
\<close>

theorem set_always_notifies:
  "set_sig n s v (assign s u w) = set_sig n s v w \<and>
   (\<forall>w'. set_sig n s v w = Done w' \<longrightarrow>
      (\<forall>e\<in>set (readers (signals w s)). to_string (get s w') = Inr (innerText (elements w' e))) \<and>
      (\<forall>e\<in>set (checkers (signals w s)).
         (''visible'' \<in> set (classList (elements w' e))) = truthy (get s w'))) \<and>
   ((\<forall>g. Some g \<in> set (subscribers (signals w s)) \<longrightarrow> observer w g) \<and>
    length (subscribers (signals w s)) \<le> n \<longrightarrow>
      (\<exists>w'. final (set_sig n s v w) = Some w' \<and> get s w' = v \<and>
         calls w' = calls w @ map (\<lambda>g. Call g v) (live (subscribers (signals w s))) \<and>
         (readers (signals w s) = [] \<or> printable v \<longrightarrow>
            set_sig n s v w = Done w' \<and>
            (\<forall>e\<in>set (readers (signals w s)). to_string v = Inr (innerText (elements w' e))) \<and>
            (\<forall>e\<in>set (checkers (signals w s)).
               classList (elements w' e) =
                 classList_toggle ''visible'' (truthy v) (classList (elements w e))))))"
proof (intro conjI impI allI)
  show "set_sig n s v (assign s u w) = set_sig n s v w"
    by (simp del: notify_eq)
next
  fix w' assume "set_sig n s v w = Done w'"
  then have d: "notify n s (assign s v w) = Done w'"
    by (simp del: notify_eq)
  show "\<forall>e\<in>set (readers (signals w s)). to_string (get s w') = Inr (innerText (elements w' e))"
    using notify_Done_text [OF d] by simp
  show "\<forall>e\<in>set (checkers (signals w s)).
         (''visible'' \<in> set (classList (elements w' e))) = truthy (get s w')"
    using notify_Done_visible [OF d] by simp
next
  assume a: "(\<forall>g. Some g \<in> set (subscribers (signals w s)) \<longrightarrow> observer w g) \<and>
    length (subscribers (signals w s)) \<le> n"
  let ?w1 = "record_events (map (\<lambda>g. Call g v) (live (subscribers (signals w s)))) (assign s v w)"
  have n: "notify n s (assign s v w) =
         (if writable s (assign s v w) then Done (paint s ?w1)
          else Threw (conversion_error v) ?w1)"
    using notify_observers [of "assign s v w" s n] a by simp
  define w' where "w' = (if writable s (assign s v w) then paint s ?w1 else ?w1)"
  have fin: "final (set_sig n s v w) = Some w'"
    using n by (simp add: w'_def del: notify_eq)
  have facts: "get s w' = v"
    "calls w' = calls w @ map (\<lambda>g. Call g v) (live (subscribers (signals w s)))"
    by (simp_all add: w'_def)
  have ret: "set_sig n s v w = Done w' \<and>
       (\<forall>e\<in>set (readers (signals w s)). to_string v = Inr (innerText (elements w' e))) \<and>
       (\<forall>e\<in>set (checkers (signals w s)).
          classList (elements w' e) =
            classList_toggle ''visible'' (truthy v) (classList (elements w e)))"
    if wr: "readers (signals w s) = [] \<or> printable v"
  proof -
    from wr have w: "writable s (assign s v w)"
      by (simp add: writable_assign)
    have "\<forall>e\<in>set (readers (signals w s)). to_string v = Inr (innerText (elements w' e))"
    proof
      fix e assume e: "e \<in> set (readers (signals w s))"
      with wr have "printable v" by auto
      then have "to_string v = Inr (text_of v)" by (rule printable_cases)
      with e w show "to_string v = Inr (innerText (elements w' e))"
        by (simp add: w'_def paint_text)
    qed
    with n w show ?thesis
      by (simp add: w'_def paint_class del: notify_eq)
  qed
  from fin facts ret show "\<exists>w'. final (set_sig n s v w) = Some w' \<and> get s w' = v \<and>
         calls w' = calls w @ map (\<lambda>g. Call g v) (live (subscribers (signals w s))) \<and>
         (readers (signals w s) = [] \<or> printable v \<longrightarrow>
            set_sig n s v w = Done w' \<and>
            (\<forall>e\<in>set (readers (signals w s)). to_string v = Inr (innerText (elements w' e))) \<and>
            (\<forall>e\<in>set (checkers (signals w s)).
               classList (elements w' e) =
                 classList_toggle ''visible'' (truthy v) (classList (elements w e))))"
    by blast
qed

text \<open>Setting \<open>0\<close> on the example signal, which holds \<open>0\<close> already.\<close>

theorem set_always_notifies_witness:
  "get 0 (counter observers_only) = Num 0 \<and>
   (\<exists>w'. set_sig 3 0 (Num 0) (counter observers_only) = Done w' \<and> get 0 w' = Num 0 \<and>
      calls w' = [Call (Fn 0) (Num 0), Call (Fn 1) (Num 0), Call (Fn 2) (Num 0)] \<and>
      innerText (elements w' 0) = ''0'' \<and> classList (elements w' 1) = [])"
proof -
  have obs: "\<forall>g. Some g \<in> set (subscribers (signals (counter observers_only) 0)) \<longrightarrow>
      observer (counter observers_only) g"
    by (auto simp: observers_only_def)
  have len: "length (subscribers (signals (counter observers_only) 0)) \<le> 3"
    by simp
  have str: "to_string (Num 0) = Inr ''0''"
    by (simp add: number_to_string_def)
  from set_always_notifies [of 3 0 "Num 0" "Num 0" "counter observers_only"] obs len show ?thesis
    by (auto simp add: classList_toggle_def str simp del: set_sig.simps to_string.simps)
qed

text \<open>
  Claim C6 as it was stated fails when a subscriber raises. On the example world whose
  second subscriber throws, \<^verbatim>\<open>set(0)\<close> (the value the signal holds) invokes the
  first two subscribers and not the third, which is still subscribed; and
  \<^verbatim>\<open>set(7)\<close> leaves the display target showing \<^verbatim>\<open>0\<close>.
\<close>

theorem set_same_value_aborted:
  "get 0 (counter second_throws) = Num 0 \<and>
   live (subscribers (signals (counter second_throws) 0)) = [Fn 0, Fn 1, Fn 2] \<and>
   map_option calls (final (set_sig 3 0 (Num 0) (counter second_throws))) =
     Some [Call (Fn 0) (Num 0), Call (Fn 1) (Num 0)] \<and>
   map_option (text_at 0) (final (set_sig 3 0 (Num 7) (counter second_throws))) = Some ''0''"
  by (simp add: numeral_3 second_throws_def text_at_def)

section \<open>The unsubscribe handle\<close>



section \<open>The value that get returns\<close>

lemma final_notify_steady:
  assumes "\<forall>g. Some g \<in> set (subscribers (signals w s)) \<longrightarrow> steady w g"
    and "\<forall>c k. Some (Recompute c k) \<in> set (subscribers (signals w s)) \<longrightarrow>
           length (subscribers (signals w c)) \<le> M"
    and "length (subscribers (signals w s)) + M \<le> n"
  shows "\<exists>w'. final (notify n s w) = Some w' \<and> same_shape w w'"
proof -
  from forEach_steady [OF assms(1,2), of 0 n] assms(3)
  obtain w1 where w1: "forEach_subs n s 0 w = Done w1" "same_shape w w1"
    by auto
  have "same_shape w (paint s w1)"
    using same_shape_trans [OF w1(2) same_shape_steps(4)] .
  with w1 show ?thesis
    by simp
qed

lemma perform_steady:
  assumes "\<forall>g. Some g \<in> set (subscribers (signals w s)) \<longrightarrow> steady w g"
    and "\<forall>c k. Some (Recompute c k) \<in> set (subscribers (signals w s)) \<longrightarrow>
           length (subscribers (signals w c)) \<le> M"
    and "length (subscribers (signals w s)) + M \<le> n"
  shows "\<exists>w'. final (perform n s c w) = Some w' \<and> same_shape w w'"
proof -
  have set: "\<exists>w'. final (notify n s (assign s x w)) = Some w' \<and> same_shape w w'" for x
  proof -
    have sh: "same_shape w (assign s x w)" by simp
    have "\<exists>w'. final (notify n s (assign s x w)) = Some w' \<and> same_shape (assign s x w) w'"
    proof (rule final_notify_steady)
      show "\<forall>g. Some g \<in> set (subscribers (signals (assign s x w) s)) \<longrightarrow> steady (assign s x w) g"
        using assms(1) steady_same_shape [OF sh] by simp
      show "\<forall>c k. Some (Recompute c k) \<in> set (subscribers (signals (assign s x w) s)) \<longrightarrow>
           length (subscribers (signals (assign s x w) c)) \<le> M"
        using assms(2) by simp
      show "length (subscribers (signals (assign s x w) s)) + M \<le> n"
        using assms(3) by simp
    qed
    with same_shape_trans [OF sh] show ?thesis by blast
  qed
  show ?thesis
  proof (cases c)
    case (SetCall x)
    with set [of x] show ?thesis by (simp del: notify_eq)
  next
    case (UpdateCall f)
    show ?thesis
    proof (cases "f (get s w)")
      case (Inl e)
      with UpdateCall show ?thesis by simp
    next
      case (Inr x)
      with UpdateCall set [of x] show ?thesis by (simp del: notify_eq)
    qed
  qed
qed

lemma perform_all_steady:
  assumes "\<forall>g. Some g \<in> set (subscribers (signals w s)) \<longrightarrow> steady w g"
    and "\<forall>c k. Some (Recompute c k) \<in> set (subscribers (signals w s)) \<longrightarrow>
           length (subscribers (signals w c)) \<le> M"
    and "length (subscribers (signals w s)) + M \<le> n"
  shows "\<exists>w'. perform_all n s cs w = Some w'"
  using assms
proof (induction cs arbitrary: w)
  case Nil
  then show ?case by simp
next
  case (Cons c cs)
  from perform_steady [OF Cons.prems, of c]
  obtain w1 where w1: "final (perform n s c w) = Some w1" "same_shape w w1"
    by blast
  from w1(2) have subs: "\<And>t. subscribers (signals w1 t) = subscribers (signals w t)"
    by (simp add: same_shape_def)
  have "\<exists>w'. perform_all n s cs w1 = Some w'"
  proof (rule Cons.IH)
    show "\<forall>g. Some g \<in> set (subscribers (signals w1 s)) \<longrightarrow> steady w1 g"
      using Cons.prems(1) steady_same_shape [OF w1(2)] by (simp add: subs)
    show "\<forall>c k. Some (Recompute c k) \<in> set (subscribers (signals w1 s)) \<longrightarrow>
           length (subscribers (signals w1 c)) \<le> M"
      using Cons.prems(2) by (simp add: subs)
    show "length (subscribers (signals w1 s)) + M \<le> n"
      using Cons.prems(3) by (simp add: subs)
  qed
  with w1(1) show ?case by simp
qed

text \<open>
  Claim C1, amended. For every signal that no callback writes (no function of the
  caller sets or updates it, and it is not the internal signal of a computed signal), and every sequence of \<^verbatim>\<open>set\<close> and \<^verbatim>\<open>update\<close> calls on it (whatever
  the subscribed callbacks do otherwise, raising included), \<^verbatim>\<open>get\<close> after the last
  call returns the last written value: \<open>v\<close> after \<^verbatim>\<open>set(v)\<close>, and \<open>fn(previous)\<close>
  after \<^verbatim>\<open>update(fn)\<close>, where \<open>previous\<close> is the value held just before that call.
  With steady subscribers (observers and the closures of computed signals in good
  order) and fuel for one pass, every such sequence runs to its end.
\<close>

theorem get_returns_last_written:
  "(no_writer s w \<and> perform_all n s cs w = Some w' \<longrightarrow>
      get s w' = foldl written (get s w) cs) \<and>
   ((\<forall>g. Some g \<in> set (subscribers (signals w s)) \<longrightarrow> steady w g) \<and>
    (\<forall>c k. Some (Recompute c k) \<in> set (subscribers (signals w s)) \<longrightarrow>
       length (subscribers (signals w c)) \<le> M) \<and>
    length (subscribers (signals w s)) + M \<le> n \<longrightarrow>
      (\<exists>w'. perform_all n s cs w = Some w'))"
proof (intro conjI impI)
  assume "no_writer s w \<and> perform_all n s cs w = Some w'"
  then have "no_writer s w" "perform_all n s cs w = Some w'" by simp_all
  then show "get s w' = foldl written (get s w) cs"
  proof (induction cs arbitrary: w)
    case Nil
    then show ?case by simp
  next
    case (Cons c cs)
    from Cons.prems(2) obtain w1 where w1: "final (perform n s c w) = Some w1"
      "perform_all n s cs w1 = Some w'"
      by (auto split: option.splits)
    from perform_no_writer [OF Cons.prems(1) w1(1)] Cons.IH [OF _ w1(2)] show ?case
      by simp
  qed
next
  assume "(\<forall>g. Some g \<in> set (subscribers (signals w s)) \<longrightarrow> steady w g) \<and>
    (\<forall>c k. Some (Recompute c k) \<in> set (subscribers (signals w s)) \<longrightarrow>
       length (subscribers (signals w c)) \<le> M) \<and>
    length (subscribers (signals w s)) + M \<le> n"
  then show "\<exists>w'. perform_all n s cs w = Some w'"
    using perform_all_steady [of w s M n cs] by simp
qed

text \<open>A set, an update and an update whose function throws, on the example signal whose
  second subscriber throws in every pass.\<close>

theorem get_returns_last_written_witness:
  "\<exists>w'. perform_all 3 0 [SetCall (Num 7), UpdateCall (\<lambda>v. Inr (Str ''seven'')),
             UpdateCall (\<lambda>v. Inl (Thrown Null))] (counter second_throws) = Some w' \<and>
        get 0 w' = Str ''seven''"
proof -
  have nw: "no_writer 0 (counter second_throws)"
    by (simp add: no_writer_def second_throws_def counter_subscribers)
  have "\<exists>w'. perform_all 3 0 [SetCall (Num 7), UpdateCall (\<lambda>v. Inr (Str ''seven'')),
             UpdateCall (\<lambda>v. Inl (Thrown Null))] (counter second_throws) = Some w'"
    by (simp add: numeral_3 second_throws_def)
  then obtain w' where w': "perform_all 3 0 [SetCall (Num 7), UpdateCall (\<lambda>v. Inr (Str ''seven'')),
             UpdateCall (\<lambda>v. Inl (Thrown Null))] (counter second_throws) = Some w'"
    by blast
  from get_returns_last_written [of 0 "counter second_throws" 3
      "[SetCall (Num 7), UpdateCall (\<lambda>v. Inr (Str ''seven'')), UpdateCall (\<lambda>v. Inl (Thrown Null))]" w']
    nw w'
  have "get 0 w' = Str ''seven''"
    by simp
  with w' show ?thesis
    by blast
qed

text \<open>
  Claim C1 as it was stated fails when a subscriber writes the signal: on the example
  world whose first subscriber sets the signal to \<open>99\<close>, \<^verbatim>\<open>set(1)\<close> returns and
  \<^verbatim>\<open>get\<close> gives \<open>99\<close>.
\<close>

theorem get_after_set_overwritten:
  "map_option (get 0) (returned (set_sig 4 0 (Num 1) (counter resetting))) = Some (Num 99)"
  by (simp add: eval_nat_numeral resetting_def writable_assign)

section \<open>The value of a computed signal\<close>


text \<open>The example of the claim: with \<open>count = 0\<close> the computed \<open>count > 0\<close> is false;
  after \<^verbatim>\<open>count.set(5)\<close> it is true.\<close>

lemma css_plain_examples [simp]: "css_plain ''isCountPositive''" "css_plain ''sum''"
  by (simp_all add: css_plain_def)






section \<open>No coalescing\<close>




end
